theory Spec2Isabelle
  imports Complex_Main
begin

section \<open>Numbers, vectors and array access\<close>

text \<open>
  The classifier works on numpy arrays of float64. Floats are modelled by the reals
  (the thresholds \<open>0.99\<close>, \<open>0.9\<close>, ... are the decimal numbers the source writes), and
  the places where numpy produces \<open>nan\<close> or \<open>inf\<close> (a division by an atom count of zero)
  are written out as branches, because every comparison with \<open>nan\<close> is False in Python
  while HOL's \<open>x / 0\<close> is \<open>0\<close>.
  An exception of the source is a value \<open>Inl e\<close> of the result.
\<close>

type_synonym vec3 = "real \<times> real \<times> real"

datatype error = IndexError | ZeroDivisionError | ValueError

definition bind_err :: "error + 'a \<Rightarrow> ('a \<Rightarrow> error + 'b) \<Rightarrow> error + 'b" where
  "bind_err m f = (case m of Inl e \<Rightarrow> Inl e | Inr x \<Rightarrow> f x)"

text \<open>\<open>xs[i]\<close> on a numpy array: an index in \<open>[-n, 0)\<close> counts from the end, anything
  outside \<open>[-n, n)\<close> raises IndexError.\<close>

definition np_get :: "'a list \<Rightarrow> int \<Rightarrow> error + 'a" where
  "np_get xs i =
     (if 0 \<le> i \<and> i < int (length xs) then Inr (xs ! nat i)
      else if - int (length xs) \<le> i \<and> i < 0 then Inr (xs ! nat (int (length xs) + i))
      else Inl IndexError)"

text \<open>\<open>xs[i] = v\<close> on a numpy array, with the same index rule.\<close>

definition np_set :: "'a list \<Rightarrow> int \<Rightarrow> 'a \<Rightarrow> error + 'a list" where
  "np_set xs i v =
     (if 0 \<le> i \<and> i < int (length xs) then Inr (xs[nat i := v])
      else if - int (length xs) \<le> i \<and> i < 0 then Inr (xs[nat (int (length xs) + i) := v])
      else Inl IndexError)"

text \<open>A list comprehension \<open>[f(n) for n in ns]\<close> whose body may raise: the first
  exception aborts the comprehension.\<close>

fun map_err :: "('a \<Rightarrow> error + 'b) \<Rightarrow> 'a list \<Rightarrow> error + 'b list" where
  "map_err f [] = Inr []"
| "map_err f (x # xs) =
     (case f x of
        Inl e \<Rightarrow> Inl e
      | Inr y \<Rightarrow> (case map_err f xs of Inl e \<Rightarrow> Inl e | Inr ys \<Rightarrow> Inr (y # ys)))"

text \<open>\<open>range(n)\<close> for a Python int \<open>n\<close> (empty when \<open>n \<le> 0\<close>).\<close>

definition range_py :: "int \<Rightarrow> int list" where
  "range_py n = map int [0..<nat n]"

fun comp0 :: "vec3 \<Rightarrow> real" where "comp0 (x, y, z) = x"
fun comp1 :: "vec3 \<Rightarrow> real" where "comp1 (x, y, z) = y"
fun comp2 :: "vec3 \<Rightarrow> real" where "comp2 (x, y, z) = z"

fun dot :: "vec3 \<Rightarrow> vec3 \<Rightarrow> real" where
  "dot (a1, a2, a3) (b1, b2, b3) = a1 * b1 + a2 * b2 + a3 * b3"

fun cross :: "vec3 \<Rightarrow> vec3 \<Rightarrow> vec3" where
  "cross (a1, a2, a3) (b1, b2, b3) = (a2 * b3 - a3 * b2, a3 * b1 - a1 * b3, a1 * b2 - a2 * b1)"

fun vadd :: "vec3 \<Rightarrow> vec3 \<Rightarrow> vec3" where
  "vadd (a1, a2, a3) (b1, b2, b3) = (a1 + b1, a2 + b2, a3 + b3)"

fun vsub :: "vec3 \<Rightarrow> vec3 \<Rightarrow> vec3" where
  "vsub (a1, a2, a3) (b1, b2, b3) = (a1 - b1, a2 - b2, a3 - b3)"

fun vscale :: "real \<Rightarrow> vec3 \<Rightarrow> vec3" where
  "vscale k (a1, a2, a3) = (k * a1, k * a2, k * a3)"

definition norm3 :: "vec3 \<Rightarrow> real" where
  "norm3 v = sqrt (dot v v)"

text \<open>A row of the \<open>(n, 3)\<close> neighbour array, as the list a \<open>for\<close> loop runs over.\<close>

fun row_list :: "int \<times> int \<times> int \<Rightarrow> int list" where
  "row_list (a, b, d) = [a, b, d]"

section \<open>The lattice (class Lattice)\<close>

text \<open>
  The contents of the two input files, after the split of each line into fields and the
  conversion of the fields to numbers: \<open>header_n\<close> is \<open>int(header_data[1])\<close>,
  \<open>atom_lines\<close> are the records of \<open>lines[1:]\<close> (a position and the three neighbour
  indices as the file has them, counted from one), and a spin file is the list of its
  spin records. A path that the file system does not map is a missing file.
\<close>

record structure_data =
  header_n :: int
  atom_lines :: "(vec3 \<times> (int \<times> int \<times> int)) list"

type_synonym spin_data = "vec3 list"

record file_system =
  structure_files :: "string \<rightharpoonup> structure_data"
  spin_files :: "string \<rightharpoonup> spin_data"

text \<open>The attributes \<open>spins\<close>, \<open>vecinos\<close>, \<open>sublattice\<close> and \<open>size\<close> of the class carry
  the suffix \<open>_l\<close> here: the classifier context has fields of the same names.\<close>

record lattice =
  spins_l :: "vec3 list"
  position :: "vec3 list"
  vecinos_l :: "(int \<times> int \<times> int) list"
  n_atoms :: int
  dimensions :: vec3
  size_l :: real
  sublattice_l :: "int list"

definition lattice_init :: lattice where
  "lattice_init = \<lparr> spins_l = [], position = [], vecinos_l = [], n_atoms = 0,
                     dimensions = (0, 0, 0), size_l = 0, sublattice_l = [] \<rparr>"

text \<open>\<open>np.amax\<close> and \<open>np.amin\<close> of a list: ValueError on the empty list.\<close>

fun amax :: "real list \<Rightarrow> error + real" where
  "amax [] = Inl ValueError"
| "amax (x # xs) = Inr (fold max xs x)"

fun amin :: "real list \<Rightarrow> error + real" where
  "amin [] = Inl ValueError"
| "amin (x # xs) = Inr (fold min xs x)"

text \<open>An array of \<open>n\<close> zero rows whose first rows are overwritten by the records read:
  the slice \<open>lines[1:n + 1]\<close> has at most \<open>n\<close> records.\<close>

definition fill_rows :: "nat \<Rightarrow> 'a \<Rightarrow> 'a list \<Rightarrow> 'a list" where
  "fill_rows n zero rows = take n rows @ replicate (n - length rows) zero"

fun shift_row :: "int \<times> int \<times> int \<Rightarrow> int \<times> int \<times> int" where
  "shift_row (a, b, d) = (a - 1, b - 1, d - 1)"

definition extent :: "(vec3 \<Rightarrow> real) \<Rightarrow> vec3 list \<Rightarrow> error + real" where
  "extent sel ps =
     bind_err (amax (map sel ps)) (\<lambda>hi. bind_err (amin (map sel ps)) (\<lambda>lo. Inr (hi - lo)))"

text \<open>
  \<open>load_files\<close>: a missing file is reported and the lattice is returned as it was.
  \<open>np.zeros\<close> raises ValueError for a negative atom count, and so does the reduction
  \<open>np.amax(self.position, axis=0)\<close> for an atom count of zero.
\<close>

definition load_files :: "file_system \<Rightarrow> lattice \<Rightarrow> string \<Rightarrow> string \<Rightarrow> error + lattice" where
  "load_files fs l structure_file spin_file =
     (case structure_files fs structure_file of
        None \<Rightarrow> Inr l
      | Some lines \<Rightarrow>
          (case spin_files fs spin_file of
             None \<Rightarrow> Inr l
           | Some spin_lines \<Rightarrow>
               let n = header_n lines in
               if n < 0 then Inl ValueError
               else
                 let pos = fill_rows (nat n) (0, 0, 0) (map fst (atom_lines lines));
                     vec = fill_rows (nat n) (0, 0, 0) (map (shift_row \<circ> snd) (atom_lines lines));
                     sp = fill_rows (nat n) (0, 0, 0) spin_lines
                 in bind_err (extent comp0 pos) (\<lambda>dx.
                    bind_err (extent comp1 pos) (\<lambda>dy.
                    bind_err (extent comp2 pos) (\<lambda>dz.
                      Inr \<lparr> spins_l = sp, position = pos, vecinos_l = vec, n_atoms = n,
                            dimensions = (dx, dy, dz), size_l = max dx (max dy dz),
                            sublattice_l = replicate (nat n) 0 \<rparr>)))))"

subsection \<open>Sublattice labelling\<close>

text \<open>The state of the traversal: the label array, the \<open>checked\<close> array and the queue
  (its head is the next node).\<close>

type_synonym bfs_state = "int list \<times> bool list \<times> int list"

text \<open>The body of the loop over the neighbours of \<open>node\<close>, for one \<open>vecino\<close>.\<close>

definition visit_neighbour :: "int \<Rightarrow> int \<Rightarrow> bfs_state \<Rightarrow> error + bfs_state" where
  "visit_neighbour node vecino st =
     (case st of (subl, checked, queue) \<Rightarrow>
        bind_err (np_get subl vecino) (\<lambda>label.
          if label \<noteq> 0 then
            bind_err (np_set subl node (- label)) (\<lambda>subl'. Inr (subl', checked, queue))
          else
            bind_err (np_get checked vecino) (\<lambda>seen.
              if \<not> seen then
                bind_err (np_set checked vecino True) (\<lambda>checked'.
                  Inr (subl, checked', queue @ [vecino]))
              else Inr (subl, checked, queue))))"

fun visit_row :: "int \<Rightarrow> int list \<Rightarrow> bfs_state \<Rightarrow> error + bfs_state" where
  "visit_row node [] st = Inr st"
| "visit_row node (vecino # rest) st =
     (case visit_neighbour node vecino st of
        Inl e \<Rightarrow> Inl e
      | Inr st' \<Rightarrow> visit_row node rest st')"

definition n_unchecked :: "bool list \<Rightarrow> nat" where
  "n_unchecked checked = length (filter Not checked)"

lemma np_set_unchecked:
  assumes "np_get checked v = Inr False" and "np_set checked v True = Inr checked'"
  shows "Suc (n_unchecked checked') = n_unchecked checked"
proof -
  have upd: "\<And>i. i < length checked \<Longrightarrow> \<not> checked ! i \<Longrightarrow>
      Suc (length (filter Not (checked[i := True]))) = length (filter Not checked)"
  proof -
    fix i assume i: "i < length checked" "\<not> checked ! i"
    have c: "checked = take i checked @ (checked ! i) # drop (Suc i) checked"
      using i(1) by (simp add: id_take_nth_drop)
    have u: "checked[i := True] = take i checked @ True # drop (Suc i) checked"
      using i(1) by (simp add: upd_conv_take_nth_drop)
    have "length (filter Not checked)
          = length (filter Not (take i checked @ (checked ! i) # drop (Suc i) checked))"
      using c by simp
    then show "Suc (length (filter Not (checked[i := True]))) = length (filter Not checked)"
      using i(2) by (simp add: u)
  qed
  show ?thesis
    using assms upd unfolding n_unchecked_def np_get_def np_set_def
    by (auto split: if_splits)
qed

lemma visit_neighbour_measure:
  assumes "visit_neighbour node v (subl, checked, queue) = Inr (subl', checked', queue')"
  shows "n_unchecked checked' + length queue' = n_unchecked checked + length queue"
proof (cases "np_get subl v")
  case (Inl e)
  with assms show ?thesis by (simp add: visit_neighbour_def bind_err_def)
next
  case (Inr label)
  show ?thesis
  proof (cases "label = 0")
    case False
    with assms Inr show ?thesis
      by (auto simp: visit_neighbour_def bind_err_def split: sum.splits)
  next
    case True
    show ?thesis
    proof (cases "np_get checked v")
      case (Inl e)
      with assms Inr True show ?thesis by (simp add: visit_neighbour_def bind_err_def)
    next
      case seen: (Inr seen)
      show ?thesis
      proof (cases seen)
        case True
        with assms Inr \<open>label = 0\<close> seen show ?thesis
          by (simp add: visit_neighbour_def bind_err_def)
      next
        case False
        with assms Inr \<open>label = 0\<close> seen
        have "np_set checked v True = Inr checked'" "queue' = queue @ [v]"
          by (auto simp: visit_neighbour_def bind_err_def split: sum.splits)
        with seen False show ?thesis
          using np_set_unchecked [of checked v checked'] by simp
      qed
    qed
  qed
qed

lemma visit_row_measure:
  "visit_row node vs (subl, checked, queue) = Inr (subl', checked', queue') \<Longrightarrow>
   n_unchecked checked' + length queue' = n_unchecked checked + length queue"
proof (induction vs arbitrary: subl checked queue)
  case Nil
  then show ?case by simp
next
  case (Cons v vs)
  then obtain st1 where st1: "visit_neighbour node v (subl, checked, queue) = Inr st1"
    by (auto split: sum.splits)
  obtain s1 c1 q1 where t: "st1 = (s1, c1, q1)" by (cases st1)
  have "visit_row node vs (s1, c1, q1) = Inr (subl', checked', queue')"
    using Cons.prems st1 t by simp
  then have "n_unchecked checked' + length queue' = n_unchecked c1 + length q1"
    by (rule Cons.IH)
  moreover have "n_unchecked c1 + length q1 = n_unchecked checked + length queue"
    using visit_neighbour_measure st1 t by simp
  ultimately show ?case by simp
qed

text \<open>The \<open>while\<close> loop of \<open>set_sublattice\<close>. Every node enters the queue at most once
  (when its \<open>checked\<close> entry turns True), so the number of unchecked nodes plus the
  length of the queue decreases with every node taken from the queue.\<close>

function bfs_loop :: "(int \<times> int \<times> int) list \<Rightarrow> bfs_state \<Rightarrow> error + int list" where
  "bfs_loop vec (subl, checked, []) = Inr subl"
| "bfs_loop vec (subl, checked, node # queue) =
     (case np_get vec node of
        Inl e \<Rightarrow> Inl e
      | Inr row \<Rightarrow>
          (case visit_row node (row_list row) (subl, checked, queue) of
             Inl e \<Rightarrow> Inl e
           | Inr st' \<Rightarrow> bfs_loop vec st'))"
  by pat_completeness auto
termination
proof (relation "measure (\<lambda>(vec, subl, checked, queue). n_unchecked checked + length queue)")
  show "wf (measure (\<lambda>(vec, subl, checked, queue). n_unchecked checked + length queue))"
    by simp
next
  fix vec :: "(int \<times> int \<times> int) list" and subl checked node queue row st'
  assume "visit_row node (row_list row) (subl, checked, queue) = Inr st'"
  then show "((vec, st'), (vec, subl, checked, node # queue))
      \<in> measure (\<lambda>(vec, subl, checked, queue). n_unchecked checked + length queue)"
    using visit_row_measure [of node "row_list row" subl checked queue]
    by (cases st') auto
qed

text \<open>\<open>set_sublattice\<close>: \<open>np.zeros\<close> raises ValueError for a negative atom count, and the
  seeding of atom \<open>0\<close> raises IndexError on an empty array. The labels the lattice
  already carries are not reset.\<close>

definition set_sublattice :: "lattice \<Rightarrow> error + lattice" where
  "set_sublattice l =
     (if n_atoms l < 0 then Inl ValueError
      else
        bind_err (np_set (sublattice_l l) 0 1) (\<lambda>subl.
        bind_err (np_set (replicate (nat (n_atoms l)) False) 0 True) (\<lambda>checked.
        bind_err (bfs_loop (vecinos_l l) (subl, checked, [0])) (\<lambda>subl'.
          Inr (l\<lparr> sublattice_l := subl' \<rparr>)))))"

section \<open>The classifier context (class Criteria)\<close>

text \<open>
  \<open>vecinos\<close> is the \<open>(n, 3)\<close> integer array of the lattice: one row of three neighbour
  indices per atom. \<open>len\<close> is a Python int.
\<close>

record criteria =
  len :: int
  vecinos :: "(int \<times> int \<times> int) list"
  sublattice :: "int list"
  positions :: "vec3 list"

definition criteria_init :: criteria where
  "criteria_init = \<lparr> len = 0, vecinos = [], sublattice = [], positions = [] \<rparr>"

definition set_values ::
  "criteria \<Rightarrow> int \<Rightarrow> (int \<times> int \<times> int) list \<Rightarrow> int list \<Rightarrow> vec3 list \<Rightarrow> criteria" where
  "set_values c n vs subl pos =
     c\<lparr> len := n, vecinos := vs, sublattice := subl, positions := pos \<rparr>"

subsection \<open>Global order along z\<close>

text \<open>\<open>[spins[n][k] for n in range(self.len)]\<close>, for the component selector \<open>sel\<close>.\<close>

definition spins_component :: "(vec3 \<Rightarrow> real) \<Rightarrow> criteria \<Rightarrow> vec3 list \<Rightarrow> error + real list" where
  "spins_component sel c spins =
     map_err (\<lambda>n. bind_err (np_get spins n) (\<lambda>s. Inr (sel s))) (range_py (len c))"

definition spins_z :: "criteria \<Rightarrow> vec3 list \<Rightarrow> error + real list" where
  "spins_z c spins = spins_component comp2 c spins"

text \<open>\<open>[spins[n][k] * self.sublattice[n] for n in range(self.len)]\<close>, for the component
  selector \<open>sel\<close>.\<close>

definition spins_weighted :: "(vec3 \<Rightarrow> real) \<Rightarrow> criteria \<Rightarrow> vec3 list \<Rightarrow> error + real list" where
  "spins_weighted sel c spins =
     map_err (\<lambda>n. bind_err (np_get spins n) (\<lambda>s.
                  bind_err (np_get (sublattice c) n) (\<lambda>l. Inr (sel s * real_of_int l))))
       (range_py (len c))"

text \<open>With \<open>self.len = 0\<close> the sum is over an empty list, \<open>0.0 / 0\<close> is \<open>nan\<close> and
  \<open>nan > 0.99\<close> is False.\<close>

definition is_ferro_z_aligned :: "criteria \<Rightarrow> vec3 list \<Rightarrow> error + bool" where
  "is_ferro_z_aligned c spins =
     bind_err (spins_z c spins) (\<lambda>zs.
       let mag_z = sum_list zs in
       Inr (if len c = 0 then False else \<bar>mag_z\<bar> / real_of_int (len c) > 0.99))"

definition is_antiferro_z_aligned :: "criteria \<Rightarrow> vec3 list \<Rightarrow> error + bool" where
  "is_antiferro_z_aligned c spins =
     bind_err (spins_weighted comp2 c spins) (\<lambda>zs.
       let mag_z = sum_list zs in
       Inr (if len c = 0 then False else \<bar>mag_z\<bar> / real_of_int (len c) > 0.99))"

subsection \<open>Local alignment counters\<close>

text \<open>Both comprehensions of \<open>is_xyz_aligned\<close> read \<open>spins[n][2]\<close> for every
  \<open>n\<close> of \<open>range(self.len)\<close>; with \<open>self.len = 0\<close> both quotients are \<open>nan\<close>.\<close>

definition is_xyz_aligned :: "criteria \<Rightarrow> vec3 list \<Rightarrow> error + (bool \<times> bool)" where
  "is_xyz_aligned c spins =
     bind_err (spins_z c spins) (\<lambda>zs.
     bind_err (spins_z c spins) (\<lambda>zs'.
       let counter_z = real (length (filter (\<lambda>z. \<bar>z\<bar> > 0.95) zs)) / real_of_int (len c);
           counter_xy = real (length (filter (\<lambda>z. \<bar>z\<bar> < 0.05) zs')) / real_of_int (len c)
       in Inr (if len c = 0 then (False, False) else (counter_z > 0.7, counter_xy > 0.8))))"

subsection \<open>Domain walls\<close>

definition spin_up :: vec3 where "spin_up = (0, 0, 1)"
definition spin_down :: vec3 where "spin_down = (0, 0, -1)"

text \<open>The scan of \<open>domain_wall_ferro_z_align\<close> from the indices still to visit and the
  two running minima; \<open>Inr True\<close> is the early return.\<close>

fun domain_wall_scan :: "criteria \<Rightarrow> vec3 list \<Rightarrow> int list \<Rightarrow> real \<Rightarrow> real \<Rightarrow> error + bool" where
  "domain_wall_scan c spins [] min_up min_down = Inr False"
| "domain_wall_scan c spins (i # rest) min_up min_down =
     (case np_get (sublattice c) i of
        Inl e \<Rightarrow> Inl e
      | Inr l \<Rightarrow>
          if l = 1 then
            (case np_get spins i of
               Inl e \<Rightarrow> Inl e
             | Inr spin_i \<Rightarrow>
                 let min_up' = min min_up (dot spin_up spin_i);
                     min_down' = min min_down (dot spin_down spin_i)
                 in if min_up' < - 0.9 \<and> min_down' < - 0.9 then Inr True
                    else domain_wall_scan c spins rest min_up' min_down')
          else domain_wall_scan c spins rest min_up min_down)"

definition domain_wall_ferro_z_align :: "criteria \<Rightarrow> vec3 list \<Rightarrow> error + bool" where
  "domain_wall_ferro_z_align c spins = domain_wall_scan c spins (range_py (len c)) 1 1"

text \<open>The reference definition, following the words of the specification: two atoms of
  sublattice \<open>+1\<close>, one with \<open>S.z > 0.9\<close> and one with \<open>S.z < -0.9\<close>.\<close>

definition domain_wall_reference :: "criteria \<Rightarrow> vec3 list \<Rightarrow> bool" where
  "domain_wall_reference c spins =
     list_ex (\<lambda>i. list_ex (\<lambda>j.
         sublattice c ! i = 1 \<and> sublattice c ! j = 1 \<and>
         comp2 (spins ! i) > 0.9 \<and> comp2 (spins ! j) < - 0.9)
       [0..<nat (len c)]) [0..<nat (len c)]"

subsection \<open>Global order in the xy plane\<close>

text \<open>With \<open>self.len = 0\<close> both \<open>mag_z\<close> and \<open>mag\<close> are \<open>nan\<close> and the result is
  False.\<close>

definition is_ferro_xy_aligned :: "criteria \<Rightarrow> vec3 list \<Rightarrow> error + bool" where
  "is_ferro_xy_aligned c spins =
     bind_err (spins_component comp0 c spins) (\<lambda>xs.
     bind_err (spins_component comp1 c spins) (\<lambda>ys.
     bind_err (spins_component comp2 c spins) (\<lambda>zs.
       let mag_x = sum_list xs;
           mag_y = sum_list ys;
           mag_z = \<bar>sum_list zs\<bar> / real_of_int (len c);
           mag = sqrt (mag_x ^ 2 + mag_y ^ 2 + mag_z ^ 2) / real_of_int (len c)
       in Inr (if len c = 0 then False else mag_z < 0.1 \<and> mag > 0.9))))"

definition is_antiferro_xy_aligned :: "criteria \<Rightarrow> vec3 list \<Rightarrow> error + bool" where
  "is_antiferro_xy_aligned c spins =
     bind_err (spins_weighted comp0 c spins) (\<lambda>xs.
     bind_err (spins_weighted comp1 c spins) (\<lambda>ys.
     bind_err (spins_weighted comp2 c spins) (\<lambda>zs.
       let mag_x = sum_list xs;
           mag_y = sum_list ys;
           mag_z = sum_list zs / real_of_int (len c);
           mag = sqrt (mag_x ^ 2 + mag_y ^ 2 + mag_z ^ 2) / real_of_int (len c)
       in Inr (if len c = 0 then False else \<bar>mag_z\<bar> < 0.1 \<and> mag > 0.9))))"

subsection \<open>Neighbour correlations\<close>

text \<open>\<open>np.sum([spins[n].dot(spins[m]) for m in self.vecinos[n]]) / len(self.vecinos[n])\<close>
  for one atom \<open>n\<close>; a row of \<open>vecinos\<close> has three entries.\<close>

definition neighbour_mean_dot :: "criteria \<Rightarrow> vec3 list \<Rightarrow> int \<Rightarrow> error + real" where
  "neighbour_mean_dot c spins n =
     bind_err (np_get spins n) (\<lambda>spin_n.
     bind_err (np_get (vecinos c) n) (\<lambda>row.
     bind_err (map_err (\<lambda>m. bind_err (np_get spins m) (\<lambda>s. Inr (dot spin_n s))) (row_list row))
       (\<lambda>ds. Inr (sum_list ds / real (length (row_list row))))))"

text \<open>The counters are Python ints and so is \<open>self.len\<close>: the final quotient raises
  ZeroDivisionError when \<open>self.len = 0\<close>.\<close>

definition is_local_ferro_antiferro :: "criteria \<Rightarrow> vec3 list \<Rightarrow> error + (bool \<times> bool)" where
  "is_local_ferro_antiferro c spins =
     bind_err (map_err (neighbour_mean_dot c spins) (range_py (len c))) (\<lambda>ms.
       let counter_ferro = length (filter (\<lambda>m. m > 0.99) ms);
           counter_antiferro = length (filter (\<lambda>m. \<not> m > 0.99 \<and> m < - 0.99) ms)
       in if len c = 0 then Inl ZeroDivisionError
          else Inr (real counter_ferro / real_of_int (len c) > 0.65,
                    real counter_antiferro / real_of_int (len c) > 0.65))"

definition is_random :: "criteria \<Rightarrow> vec3 list \<Rightarrow> error + bool" where
  "is_random c spins =
     bind_err (map_err (neighbour_mean_dot c spins) (range_py (len c))) (\<lambda>ms.
       let dot_value = sum_list ms in Inr (\<bar>dot_value\<bar> < 0.01))"

subsection \<open>Conical order\<close>

fun vdiv :: "vec3 \<Rightarrow> real \<Rightarrow> vec3" where
  "vdiv (a1, a2, a3) k = (a1 / k, a2 / k, a3 / k)"

text \<open>The state of the double loop of \<open>is_conical\<close>:
  \<open>(rotation_vec, traslation_vec, count)\<close>.\<close>

type_synonym conical_state = "vec3 \<times> vec3 \<times> nat"

text \<open>The body of the inner loop, for the atom \<open>i\<close> (its spin and position) and one
  neighbour index \<open>j\<close>.\<close>

definition conical_pair ::
  "criteria \<Rightarrow> vec3 list \<Rightarrow> vec3 \<Rightarrow> vec3 \<Rightarrow> int \<Rightarrow> conical_state \<Rightarrow> error + conical_state" where
  "conical_pair c spins spin_i position_i j st =
     (case st of (rotation_vec, traslation_vec, count) \<Rightarrow>
        bind_err (np_get spins j) (\<lambda>spin_j.
          let cross_vec = cross spin_i spin_j;
              mag_cross = norm3 cross_vec;
              cross_vec' = (if dot cross_vec rotation_vec < 0 then vscale (- 1) cross_vec
                            else cross_vec)
          in if mag_cross > 0.01 then Inr (vadd rotation_vec cross_vec', traslation_vec, count + 1)
             else bind_err (np_get (positions c) j) (\<lambda>position_j.
                    let r_vec = vsub position_i position_j;
                        r_vec' = (if comp1 r_vec < 0 then vscale (- 1) r_vec else r_vec)
                    in Inr (rotation_vec, vadd traslation_vec r_vec', count))))"

fun conical_row ::
  "criteria \<Rightarrow> vec3 list \<Rightarrow> vec3 \<Rightarrow> vec3 \<Rightarrow> int list \<Rightarrow> conical_state \<Rightarrow> error + conical_state" where
  "conical_row c spins spin_i position_i [] st = Inr st"
| "conical_row c spins spin_i position_i (j # js) st =
     bind_err (conical_pair c spins spin_i position_i j st)
       (conical_row c spins spin_i position_i js)"

text \<open>The outer loop runs over \<open>enumerate(zip(spins, self.positions))\<close>.\<close>

fun conical_atoms ::
  "criteria \<Rightarrow> vec3 list \<Rightarrow> (int \<times> vec3 \<times> vec3) list \<Rightarrow> conical_state \<Rightarrow> error + conical_state" where
  "conical_atoms c spins [] st = Inr st"
| "conical_atoms c spins ((i, spin_i, position_i) # rest) st =
     bind_err (np_get (vecinos c) i) (\<lambda>row.
     bind_err (conical_row c spins spin_i position_i (row_list row) st)
       (conical_atoms c spins rest))"

definition enumerate_zip :: "vec3 list \<Rightarrow> vec3 list \<Rightarrow> (int \<times> vec3 \<times> vec3) list" where
  "enumerate_zip spins pos = zip (map int [0..<min (length spins) (length pos)]) (zip spins pos)"

text \<open>The two numbers compared with \<open>0.1\<close> when \<open>count\<close> is not zero. The source
  divides the sum over the atoms by \<open>count\<close>, the number of neighbour pairs that went
  into \<open>rotation_vec\<close>.\<close>

definition conical_dots :: "vec3 list \<Rightarrow> vec3 \<Rightarrow> real list" where
  "conical_dots spins rotation_vec = map (\<lambda>spin_i. \<bar>dot spin_i rotation_vec\<bar>) spins"

text \<open>With \<open>count = 0\<close> both values are \<open>inf\<close>. A zero \<open>rotation_mag\<close> would turn
  \<open>rotation_vec\<close> into \<open>nan\<close>s, and then both comparisons are False as well.\<close>

definition is_conical :: "criteria \<Rightarrow> vec3 list \<Rightarrow> error + (bool \<times> bool)" where
  "is_conical c spins =
     bind_err (conical_atoms c spins (enumerate_zip spins (positions c)) ((0, 0, 0), (0, 0, 0), 0))
       (\<lambda>(rotation_vec, traslation_vec, count).
          if count \<noteq> 0 then
            let rotation_mag = sqrt (dot rotation_vec rotation_vec);
                rotation_vec' = vdiv rotation_vec rotation_mag;
                mean_dot_value = sum_list (conical_dots spins rotation_vec') / real count
            in bind_err (amax (conical_dots spins rotation_vec')) (\<lambda>max_dot_value.
                 if rotation_mag = 0 then Inr (False, False)
                 else Inr (mean_dot_value < 0.1, max_dot_value < 0.1))
          else Inr (False, False))"

text \<open>The mean of the specification: the same sum divided by the number of atoms.\<close>

definition conical_mean_over_atoms :: "vec3 list \<Rightarrow> vec3 \<Rightarrow> real" where
  "conical_mean_over_atoms spins rotation_vec =
     sum_list (conical_dots spins rotation_vec) / real (length spins)"

subsection \<open>The rule tables\<close>

type_synonym color = vec3

definition rgb :: "real \<Rightarrow> real \<Rightarrow> real \<Rightarrow> color" where
  "rgb r g b = (r / 255, g / 255, b / 255)"

definition data_ferro_and_align_with_domain_walls :: "criteria \<Rightarrow> vec3 list \<Rightarrow> error + color" where
  "data_ferro_and_align_with_domain_walls c spins =
     bind_err (is_local_ferro_antiferro c spins) (\<lambda>(is_ferro_local, is_antiferro_local).
     bind_err (is_xyz_aligned c spins) (\<lambda>(is_z_aligned, is_xy_aligned).
     bind_err (domain_wall_ferro_z_align c spins) (\<lambda>domain_wall.
     bind_err (is_ferro_z_aligned c spins) (\<lambda>is_ferro_in_z.
     bind_err (is_ferro_xy_aligned c spins) (\<lambda>is_ferro_in_xy.
     bind_err (is_antiferro_z_aligned c spins) (\<lambda>is_antiferro_in_z.
     bind_err (is_antiferro_xy_aligned c spins) (\<lambda>is_antiferro_in_xy.
     bind_err (is_random c spins) (\<lambda>is_rand.
       Inr (if is_antiferro_local \<and> \<not> is_z_aligned \<and> \<not> is_xy_aligned then rgb 113 255 240
            else if is_z_aligned \<and> \<not> is_ferro_local \<and> \<not> is_antiferro_local then rgb 194 255 113
            else if is_xy_aligned \<and> \<not> is_ferro_local \<and> \<not> is_antiferro_local then rgb 177 113 255
            else if is_ferro_local \<and> \<not> is_z_aligned \<and> \<not> is_xy_aligned then rgb 255 113 113
            else if is_ferro_in_z then rgb 255 231 113
            else if is_antiferro_in_z then rgb 113 255 133
            else if is_ferro_in_xy then rgb 255 113 180
            else if is_antiferro_in_xy then rgb 113 193 255
            else if is_ferro_local \<and> is_z_aligned \<and> domain_wall then rgb 255 150 113
            else if is_antiferro_local \<and> is_z_aligned \<and> domain_wall then rgb 50 194 78
            else if is_rand then (0, 0, 0)
            else rgb 255 255 255)))))))))"

definition data_ferro_spiral_skyrmions :: "criteria \<Rightarrow> vec3 list \<Rightarrow> error + color" where
  "data_ferro_spiral_skyrmions c spins =
     bind_err (is_ferro_z_aligned c spins) (\<lambda>is_ferro_in_z.
     bind_err (is_ferro_xy_aligned c spins) (\<lambda>is_ferro_in_xy.
     bind_err (is_antiferro_z_aligned c spins) (\<lambda>is_antiferro_in_z.
     bind_err (is_antiferro_xy_aligned c spins) (\<lambda>is_antiferro_in_xy.
     bind_err (is_conical c spins) (\<lambda>(is_locally_conical, is_globally_conical).
       Inr (if is_ferro_in_z then rgb 255 231 113
            else if is_antiferro_in_z then rgb 113 255 133
            else if is_ferro_in_xy then rgb 255 113 180
            else if is_antiferro_in_xy then rgb 113 193 255
            else if is_globally_conical then rgb 177 113 255
            else if is_locally_conical then rgb 255 113 113
            else rgb 255 255 255))))))"

text \<open>The rule table as the specification words it: an ordered list of
  (condition, colour) pairs, the first pair whose condition holds gives the colour, and a
  fallback colour when none holds.\<close>

fun first_match :: "(bool \<times> color) list \<Rightarrow> color \<Rightarrow> color" where
  "first_match [] fallback = fallback"
| "first_match ((b, col) # rules) fallback = (if b then col else first_match rules fallback)"

definition colors_ferro_spiral_skyrmions :: "color list" where
  "colors_ferro_spiral_skyrmions =
     [rgb 255 231 113, rgb 113 255 133, rgb 255 113 180, rgb 113 193 255,
      rgb 177 113 255, rgb 255 113 113, rgb 255 255 255]"

definition colors_ferro_and_align_with_domain_walls :: "color list" where
  "colors_ferro_and_align_with_domain_walls =
     [rgb 113 255 240, rgb 194 255 113, rgb 177 113 255, rgb 255 113 113,
      rgb 255 231 113, rgb 113 255 133, rgb 255 113 180, rgb 113 193 255,
      rgb 255 150 113, rgb 50 194 78, (0, 0, 0), rgb 255 255 255]"

text \<open>A bound context is valid when it describes \<open>n \<ge> 1\<close> atoms: the three arrays have
  \<open>n\<close> rows and every neighbour index is an atom index. A spin array is well formed for
  it when it has one row per atom.\<close>

definition row_in_range :: "nat \<Rightarrow> int \<times> int \<times> int \<Rightarrow> bool" where
  "row_in_range n row = list_all (\<lambda>j. 0 \<le> j \<and> j < int n) (row_list row)"

definition valid_context :: "criteria \<Rightarrow> bool" where
  "valid_context c =
     (1 \<le> len c \<and> length (vecinos c) = nat (len c) \<and> length (sublattice c) = nat (len c) \<and>
      length (positions c) = nat (len c) \<and> list_all (row_in_range (nat (len c))) (vecinos c))"

definition well_formed_spins :: "criteria \<Rightarrow> vec3 list \<Rightarrow> bool" where
  "well_formed_spins c spins = (length spins = nat (len c))"

subsection \<open>Reference configurations\<close>

text \<open>The perfect Neel configuration of the specification, \<open>S_i = sublattice_i * (0, 0, 1)\<close>.
  The perfect ferromagnet is \<open>replicate n (0, 0, 1)\<close>.\<close>

definition neel :: "int list \<Rightarrow> vec3 list" where
  "neel ls = map (\<lambda>l. vscale (real_of_int l) (0, 0, 1)) ls"

section \<open>Path resolution (class PathManager)\<close>

text \<open>The attributes set by \<open>__init__\<close> from the dictionary \<open>names\<close>: \<open>dir_prefix\<close>,
  \<open>name_prefix\<close> (key \<open>file_prefix\<close>), \<open>var1_name\<close> (key \<open>variable_1\<close>), \<open>var2_name\<close>
  (key \<open>variable_2\<close>), \<open>var_format\<close> (key \<open>format\<close>), \<open>structure\<close> (here \<open>structure_pm\<close>) and \<open>output_img\<close>
  (key \<open>output_image\<close>).\<close>

record path_manager =
  dir_prefix :: string
  name_prefix :: string
  var1_name :: string
  var2_name :: string
  var_format :: string
  structure_pm :: string
  output_img :: string

text \<open>
  \<open>self.var_format.format(var)\<close> is Python's \<open>str.format\<close>. It is modelled for the
  templates of the shape \<open>{:.Nf}\<close> that the programs use: fixed-point notation with
  \<open>N\<close> decimals, the exact value rounded half to even, a minus sign for a negative
  value. Any other template is returned as it is, which is what \<open>str.format\<close> does for
  a template without replacement field; other templates are outside the model.
\<close>

definition digit_char :: "nat \<Rightarrow> char" where
  "digit_char d = ''0123456789'' ! d"

fun nat_digits :: "nat \<Rightarrow> string" where
  "nat_digits n = (if n < 10 then [digit_char n] else nat_digits (n div 10) @ [digit_char (n mod 10)])"

declare nat_digits.simps [simp del]

definition zero_pad :: "nat \<Rightarrow> string \<Rightarrow> string" where
  "zero_pad w s = replicate (w - length s) (CHR ''0'') @ s"

definition format_fixed :: "nat \<Rightarrow> real \<Rightarrow> string" where
  "format_fixed p x =
     (let scaled = \<bar>x\<bar> * 10 ^ p;
          q = nat \<lfloor>scaled\<rfloor>;
          frac = scaled - real q;
          r = (if frac > 1 / 2 \<or> (frac = 1 / 2 \<and> odd q) then q + 1 else q)
      in (if x < 0 then ''-'' else '''') @ nat_digits (r div 10 ^ p) @
         (if p = 0 then '''' else ''.'' @ zero_pad p (nat_digits (r mod 10 ^ p))))"

definition digit_value :: "char \<Rightarrow> nat" where
  "digit_value c = length (takeWhile (\<lambda>d. d \<noteq> c) ''0123456789'')"

definition fixed_precision :: "string \<Rightarrow> nat option" where
  "fixed_precision t =
     (let ds = take (length t - 5) (drop 3 t)
      in if take 3 t = ''{:.'' \<and> drop (length t - 2) t = ''f}'' \<and> 5 < length t \<and>
            list_all (\<lambda>c. c \<in> set ''0123456789'') ds
         then Some (foldl (\<lambda>a c. 10 * a + digit_value c) 0 ds)
         else None)"

definition py_format :: "string \<Rightarrow> real \<Rightarrow> string" where
  "py_format t x = (case fixed_precision t of Some p \<Rightarrow> format_fixed p x | None \<Rightarrow> t)"

definition var_to_str :: "path_manager \<Rightarrow> real \<Rightarrow> string" where
  "var_to_str pm var = py_format (var_format pm) var"

definition get_file_path :: "path_manager \<Rightarrow> string \<Rightarrow> real \<Rightarrow> real \<Rightarrow> string" where
  "get_file_path pm folder var1 var2 =
     (let dir_path = dir_prefix pm @ folder @ ''/'';
          file_name = name_prefix pm @ var1_name pm @ var_to_str pm var1;
          file_name' = file_name @ var2_name pm @ var_to_str pm var2
      in dir_path @ file_name')"

definition get_folder_path :: "path_manager \<Rightarrow> string \<Rightarrow> string" where
  "get_folder_path pm folder = dir_prefix pm @ folder @ ''/''"

definition get_min_path :: "path_manager \<Rightarrow> string" where
  "get_min_path pm = dir_prefix pm @ ''min_files/''"

text \<open>The composition rule as the specification words it:
  \<open><dir><prefix><tag1><formatted var1><tag2><formatted var2>\<close>.\<close>

definition spec_file_path :: "path_manager \<Rightarrow> real \<Rightarrow> real \<Rightarrow> string" where
  "spec_file_path pm var1 var2 =
     dir_prefix pm @ name_prefix pm @ var1_name pm @ var_to_str pm var1 @
     var2_name pm @ var_to_str pm var2"

text \<open>The path manager of the example of the specification; the two attributes the
  example does not mention are left empty.\<close>

definition example_paths :: path_manager where
  "example_paths = \<lparr> dir_prefix = ''x/'', name_prefix = ''out'', var1_name = ''_DM'',
                      var2_name = ''_K'', var_format = ''{:.3f}'', structure_pm = '''',
                      output_img = '''' \<rparr>"

section \<open>The sweep (class DataManager)\<close>

record data_manager =
  path_manager :: path_manager
  var1_list :: "real list"
  var2_list :: "real list"
  data :: "color list list"
  criteria :: criteria

text \<open>\<open>__init__\<close>, from the path manager and the two lists of the dictionary
  \<open>variables\<close>.\<close>

definition data_manager_init :: "path_manager \<Rightarrow> real list \<Rightarrow> real list \<Rightarrow> data_manager" where
  "data_manager_init pm first second =
     \<lparr> path_manager = pm, var1_list = first, var2_list = second,
       data = replicate (length first) (replicate (length second) (0, 0, 0)),
       criteria = criteria_init \<rparr>"

definition enumerate_py :: "'a list \<Rightarrow> (int \<times> 'a) list" where
  "enumerate_py xs = zip (map int [0..<length xs]) xs"

text \<open>\<open>self.data[j][k] = col\<close>\<close>

definition store_color :: "int \<Rightarrow> int \<Rightarrow> color \<Rightarrow> data_manager \<Rightarrow> error + data_manager" where
  "store_color j k col dm =
     bind_err (np_get (data dm) j) (\<lambda>row.
     bind_err (np_set row k col) (\<lambda>row'.
     bind_err (np_set (data dm) j row') (\<lambda>data'.
       Inr (dm\<lparr> data := data' \<rparr>))))"

text \<open>
  The body of the double loop of \<open>set_data\<close> for the cell \<open>(j, k)\<close>. The argument
  \<open>function\<close> is a bound method of \<open>self.criteria\<close> (the program passes
  \<open>data_manager.criteria.data_ferro_spiral_skyrmions\<close>), so it is a function of the
  context the manager holds when the call is made, and of the spin array.
\<close>

definition set_data_cell ::
  "file_system \<Rightarrow> (criteria \<Rightarrow> vec3 list \<Rightarrow> error + color) \<Rightarrow>
   int \<times> real \<Rightarrow> int \<times> real \<Rightarrow> data_manager \<Rightarrow> error + data_manager" where
  "set_data_cell fs function jv kv dm =
     (case jv of (j, var1) \<Rightarrow> case kv of (k, var2) \<Rightarrow>
        let file = get_file_path (path_manager dm) '''' var1 var2 @ ''_spin'' in
        bind_err (load_files fs lattice_init (structure_pm (path_manager dm)) file) (\<lambda>lattice.
        bind_err (if len (criteria dm) = 0
                  then bind_err (set_sublattice lattice) (\<lambda>lattice'.
                         Inr (lattice',
                              dm\<lparr> criteria := set_values (criteria dm) (n_atoms lattice')
                                    (vecinos_l lattice') (sublattice_l lattice')
                                    (position lattice') \<rparr>))
                  else Inr (lattice, dm)) (\<lambda>(lattice', dm').
        bind_err (function (criteria dm') (spins_l lattice')) (\<lambda>col.
          store_color j k col dm'))))"

fun set_data_row ::
  "file_system \<Rightarrow> (criteria \<Rightarrow> vec3 list \<Rightarrow> error + color) \<Rightarrow>
   int \<times> real \<Rightarrow> (int \<times> real) list \<Rightarrow> data_manager \<Rightarrow> error + data_manager" where
  "set_data_row fs function jv [] dm = Inr dm"
| "set_data_row fs function jv (kv # rest) dm =
     bind_err (set_data_cell fs function jv kv dm) (set_data_row fs function jv rest)"

fun set_data_rows ::
  "file_system \<Rightarrow> (criteria \<Rightarrow> vec3 list \<Rightarrow> error + color) \<Rightarrow>
   (int \<times> real) list \<Rightarrow> data_manager \<Rightarrow> error + data_manager" where
  "set_data_rows fs function [] dm = Inr dm"
| "set_data_rows fs function (jv # rest) dm =
     bind_err (set_data_row fs function jv (enumerate_py (var2_list dm)) dm)
       (set_data_rows fs function rest)"

definition set_data ::
  "file_system \<Rightarrow> (criteria \<Rightarrow> vec3 list \<Rightarrow> error + color) \<Rightarrow> data_manager \<Rightarrow>
   error + data_manager" where
  "set_data fs function dm = set_data_rows fs function (enumerate_py (var1_list dm)) dm"

subsection \<open>The sweep as a run over the cells of the grid\<close>

text \<open>The cells of the grid in the order the double loop visits them (row-major), each
  with its two indices and its two parameter values.\<close>

definition grid_cells :: "data_manager \<Rightarrow> ((int \<times> real) \<times> (int \<times> real)) list" where
  "grid_cells dm =
     concat (map (\<lambda>jv. map (Pair jv) (enumerate_py (var2_list dm))) (enumerate_py (var1_list dm)))"

fun run_cells ::
  "file_system \<Rightarrow> (criteria \<Rightarrow> vec3 list \<Rightarrow> error + color) \<Rightarrow>
   ((int \<times> real) \<times> (int \<times> real)) list \<Rightarrow> data_manager \<Rightarrow> error + data_manager" where
  "run_cells fs function [] dm = Inr dm"
| "run_cells fs function ((jv, kv) # rest) dm =
     bind_err (set_data_cell fs function jv kv dm) (run_cells fs function rest)"

definition spin_file_of :: "data_manager \<Rightarrow> (int \<times> real) \<times> (int \<times> real) \<Rightarrow> string" where
  "spin_file_of dm cell =
     get_file_path (path_manager dm) '''' (snd (fst cell)) (snd (snd cell)) @ ''_spin''"

text \<open>The context that \<open>set_data\<close> binds from a labelled lattice.\<close>

definition bound_context :: "lattice \<Rightarrow> criteria" where
  "bound_context l =
     \<lparr> len = n_atoms l, vecinos = vecinos_l l, sublattice = sublattice_l l,
       positions = position l \<rparr>"

text \<open>
  The sweep of the specification's design: the context is a value fixed beforehand, and
  a cell only loads its lattice, classifies the spin array of that lattice with the fixed
  context and stores the colour. The context held by the manager is not touched.
\<close>

definition classify_cell ::
  "file_system \<Rightarrow> (criteria \<Rightarrow> vec3 list \<Rightarrow> error + color) \<Rightarrow> criteria \<Rightarrow>
   (int \<times> real) \<times> (int \<times> real) \<Rightarrow> data_manager \<Rightarrow> error + data_manager" where
  "classify_cell fs function ctx cell dm =
     bind_err (load_files fs lattice_init (structure_pm (path_manager dm)) (spin_file_of dm cell))
       (\<lambda>lattice.
     bind_err (function ctx (spins_l lattice)) (\<lambda>col.
       store_color (fst (fst cell)) (fst (snd cell)) col dm))"

fun classify_cells ::
  "file_system \<Rightarrow> (criteria \<Rightarrow> vec3 list \<Rightarrow> error + color) \<Rightarrow> criteria \<Rightarrow>
   ((int \<times> real) \<times> (int \<times> real)) list \<Rightarrow> data_manager \<Rightarrow> error + data_manager" where
  "classify_cells fs function ctx [] dm = Inr dm"
| "classify_cells fs function ctx (cell # rest) dm =
     bind_err (classify_cell fs function ctx cell dm) (classify_cells fs function ctx rest)"

subsection \<open>Reference notions for the labelling\<close>

text \<open>The neighbours of a row that already carry a nonzero label, in neighbour-array
  order.\<close>

definition labelled_neighbours :: "int list \<Rightarrow> nat list \<Rightarrow> nat list" where
  "labelled_neighbours subl vs = filter (\<lambda>v. subl ! v \<noteq> 0) vs"

text \<open>Two small lattices with given labels: three atoms that are pairwise neighbours (an
  odd cycle), and two atoms that are each other's only neighbour.\<close>

definition triangle_lattice :: "int list \<Rightarrow> lattice" where
  "triangle_lattice labels =
     \<lparr> spins_l = [(0, 0, 1), (0, 0, 1), (0, 0, 1)], position = [(0, 0, 0), (1, 0, 0), (0, 1, 0)],
       vecinos_l = [(1, 2, 2), (0, 2, 0), (0, 1, 1)], n_atoms = 3, dimensions = (1, 1, 0),
       size_l = 1, sublattice_l = labels \<rparr>"

definition pair_lattice :: "int list \<Rightarrow> lattice" where
  "pair_lattice labels =
     \<lparr> spins_l = [(0, 0, 1), (0, 0, - 1)], position = [(0, 0, 0), (1, 0, 0)],
       vecinos_l = [(1, 1, 1), (0, 0, 0)], n_atoms = 2, dimensions = (1, 0, 0),
       size_l = 1, sublattice_l = labels \<rparr>"

subsection \<open>A small sweep\<close>

text \<open>A structure file of two atoms that are each other's neighbours (indices counted
  from one, as in the file), a ferromagnetic and a Neel spin file, and a manager for the
  grid \<open>[0] \<times> [0, 1]\<close> whose paths follow the example of the specification.\<close>

definition example_structure :: structure_data where
  "example_structure =
     \<lparr> header_n = 2, atom_lines = [((0, 0, 0), (2, 2, 2)), ((1, 0, 0), (1, 1, 1))] \<rparr>"

definition example_files :: file_system where
  "example_files =
     \<lparr> structure_files = [''structure'' \<mapsto> example_structure],
       spin_files = [''x//out_DM0.000_K0.000_spin'' \<mapsto> [(0, 0, 1), (0, 0, 1)],
                     ''x//out_DM0.000_K1.000_spin'' \<mapsto> [(0, 0, 1), (0, 0, - 1)]] \<rparr>"

definition example_manager :: data_manager where
  "example_manager =
     data_manager_init (example_paths\<lparr> structure_pm := ''structure'' \<rparr>) [0] [0, 1]"

text \<open>The same file system without the second spin file, and without any spin file.\<close>

definition example_files_one_missing :: file_system where
  "example_files_one_missing =
     \<lparr> structure_files = [''structure'' \<mapsto> example_structure],
       spin_files = [''x//out_DM0.000_K0.000_spin'' \<mapsto> [(0, 0, 1), (0, 0, 1)]] \<rparr>"

definition example_files_none :: file_system where
  "example_files_none =
     \<lparr> structure_files = [''structure'' \<mapsto> example_structure], spin_files = Map.empty \<rparr>"

text \<open>The context bound from the labelled two-atom lattice.\<close>

definition example_context :: criteria where
  "example_context = \<lparr> len = 2, vecinos = [(1, 1, 1), (0, 0, 0)], sublattice = [1, - 1],
                        positions = [(0, 0, 0), (1, 0, 0)] \<rparr>"

subsection \<open>Bipartite lattices with symmetric neighbour lists\<close>

text \<open>
  Properties of a neighbour array: every index is an atom index; whenever \<open>j\<close> is in
  the row of \<open>i\<close>, \<open>i\<close> is in the row of \<open>j\<close>; and a colouring of the atoms with two
  colours gives the two atoms of every neighbour pair different colours. \<open>side\<close> is the
  label \<open>+1\<close> or \<open>-1\<close> that such a colouring assigns when atom \<open>0\<close> gets \<open>+1\<close>.
\<close>

definition valid_neighbours :: "(int \<times> int \<times> int) list \<Rightarrow> bool" where
  "valid_neighbours vec = list_all (row_in_range (length vec)) vec"

definition symmetric_neighbours :: "(int \<times> int \<times> int) list \<Rightarrow> bool" where
  "symmetric_neighbours vec =
     list_all (\<lambda>i. list_all (\<lambda>j. int i \<in> set (row_list (vec ! nat j))) (row_list (vec ! i)))
       [0..<length vec]"

definition proper_colouring :: "(nat \<Rightarrow> bool) \<Rightarrow> (int \<times> int \<times> int) list \<Rightarrow> bool" where
  "proper_colouring colour vec =
     list_all (\<lambda>i. list_all (\<lambda>j. colour (nat j) \<noteq> colour i) (row_list (vec ! i)))
       [0..<length vec]"

definition side :: "(nat \<Rightarrow> bool) \<Rightarrow> nat \<Rightarrow> int" where
  "side colour v = (if colour v = colour 0 then 1 else - 1)"

text \<open>The invariant of the traversal once atom \<open>0\<close> has been processed: every label is
  \<open>0\<close> or the side of its atom, atom \<open>0\<close> keeps \<open>+1\<close>, is checked and never enters the
  queue again, and the queue holds atom indices.\<close>

definition label_inv :: "nat \<Rightarrow> (nat \<Rightarrow> int) \<Rightarrow> bfs_state \<Rightarrow> bool" where
  "label_inv n t st =
     (case st of (subl, checked, queue) \<Rightarrow>
        length subl = n \<and> length checked = n \<and>
        list_all (\<lambda>v. subl ! v = 0 \<or> subl ! v = t v) [0..<n] \<and> subl ! 0 = 1 \<and>
        checked ! 0 \<and> 0 \<notin> set queue \<and> list_all (\<lambda>x. 0 \<le> x \<and> x < int n) queue)"

text \<open>Six atoms in two classes of three, every atom a neighbour of the three atoms of
  the other class; and four atoms on a one-way cycle, a neighbour array that is not
  symmetric.\<close>

definition two_class_lattice :: "int list \<Rightarrow> lattice" where
  "two_class_lattice labels =
     \<lparr> spins_l = [(0, 0, 1), (0, 0, 1), (0, 0, 1), (0, 0, 1), (0, 0, 1), (0, 0, 1)],
       position = [(0, 0, 0), (1, 0, 0), (0, 1, 0), (1, 1, 0), (0, 2, 0), (1, 2, 0)],
       vecinos_l = [(1, 3, 5), (0, 2, 4), (1, 3, 5), (0, 2, 4), (1, 3, 5), (0, 2, 4)],
       n_atoms = 6, dimensions = (1, 2, 0), size_l = 2, sublattice_l = labels \<rparr>"

definition one_way_cycle :: "int list \<Rightarrow> lattice" where
  "one_way_cycle labels =
     \<lparr> spins_l = [(0, 0, 1), (0, 0, 1), (0, 0, 1), (0, 0, 1)],
       position = [(0, 0, 0), (1, 0, 0), (1, 1, 0), (0, 1, 0)],
       vecinos_l = [(1, 1, 1), (2, 2, 2), (3, 3, 3), (0, 0, 0)],
       n_atoms = 4, dimensions = (1, 1, 0), size_l = 1, sublattice_l = labels \<rparr>"

section \<open>Basic facts about array access\<close>

lemma np_get_nat: "n < length xs \<Longrightarrow> np_get xs (int n) = Inr (xs ! n)"
  by (simp add: np_get_def)

lemma map_err_total:
  assumes "\<And>x. x \<in> set xs \<Longrightarrow> f x = Inr (g x)"
  shows "map_err f xs = Inr (map g xs)"
  using assms by (induction xs) simp_all

lemma map_err_length: "map_err f xs = Inr ys \<Longrightarrow> length ys = length xs"
  by (induction xs arbitrary: ys) (auto split: sum.splits)

lemma spins_z_total:
  assumes "nat (len c) \<le> length spins"
  shows "spins_z c spins = Inr (map (\<lambda>n. comp2 (spins ! n)) [0..<nat (len c)])"
proof -
  have "map_err (\<lambda>n. bind_err (np_get spins n) (\<lambda>s. Inr (comp2 s))) (range_py (len c))
        = Inr (map (\<lambda>n. comp2 (spins ! nat n)) (range_py (len c)))"
    using assms by (intro map_err_total) (auto simp: range_py_def np_get_nat bind_err_def)
  then show ?thesis
    by (simp add: spins_z_def spins_component_def range_py_def comp_def)
qed

lemma spins_weighted_total:
  assumes "nat (len c) \<le> length spins" and "nat (len c) \<le> length (sublattice c)"
  shows "spins_weighted sel c spins
         = Inr (map (\<lambda>n. sel (spins ! n) * real_of_int (sublattice c ! n)) [0..<nat (len c)])"
proof -
  have "map_err (\<lambda>n. bind_err (np_get spins n) (\<lambda>s.
                  bind_err (np_get (sublattice c) n) (\<lambda>l. Inr (sel s * real_of_int l))))
          (range_py (len c))
        = Inr (map (\<lambda>n. sel (spins ! nat n) * real_of_int (sublattice c ! nat n))
                 (range_py (len c)))"
    using assms by (intro map_err_total) (auto simp: range_py_def np_get_nat bind_err_def)
  then show ?thesis
    by (simp add: spins_weighted_def range_py_def comp_def)
qed

section \<open>The alignment counters and the domain-wall scan\<close>

lemma filter_disjoint_length:
  assumes "\<And>x. x \<in> set xs \<Longrightarrow> \<not> (P x \<and> Q x)"
  shows "length (filter P xs) + length (filter Q xs) \<le> length xs"
  using assms by (induction xs) auto

lemma spins_z_length: "spins_z c spins = Inr zs \<Longrightarrow> length zs = nat (len c)"
  by (auto simp: spins_z_def spins_component_def range_py_def dest: map_err_length)

text \<open>
  Claim C9. Whatever the bound context and the spin array, \<open>is_xyz_aligned\<close> never
  returns \<open>(True, True)\<close>: the atoms with \<open>|S.z| > 0.95\<close> and those with
  \<open>|S.z| < 0.05\<close> are disjoint, so the two fractions cannot exceed \<open>0.7\<close> and
  \<open>0.8\<close> together.
\<close>

theorem is_xyz_aligned_never_both: "is_xyz_aligned c spins \<noteq> Inr (True, True)"
proof
  assume h: "is_xyz_aligned c spins = Inr (True, True)"
  then obtain zs where zs: "spins_z c spins = Inr zs"
    by (auto simp: is_xyz_aligned_def bind_err_def split: sum.splits)
  from h zs have n0: "len c \<noteq> 0"
    by (auto simp: is_xyz_aligned_def bind_err_def Let_def split: if_splits)
  have len: "length zs = nat (len c)" using zs by (rule spins_z_length)
  define a where "a = length (filter (\<lambda>z. \<bar>z\<bar> > 0.95) zs)"
  define b where "b = length (filter (\<lambda>z. \<bar>z\<bar> < 0.05) zs)"
  have "a + b \<le> length zs" unfolding a_def b_def
    by (rule filter_disjoint_length) auto
  from h zs n0 have q: "real a / real_of_int (len c) > 0.7" "real b / real_of_int (len c) > 0.8"
    by (auto simp: is_xyz_aligned_def bind_err_def Let_def a_def b_def)
  have pos: "len c > 0"
  proof (rule ccontr)
    assume "\<not> len c > 0"
    then have "a = 0" using len by (simp add: a_def)
    with q(1) show False by simp
  qed
  have ab: "real a + real b \<le> real_of_int (len c)" using \<open>a + b \<le> length zs\<close> len pos by linarith
  note q
  then have "real a > 0.7 * real_of_int (len c)" "real b > 0.8 * real_of_int (len c)"
    using pos by (simp_all add: field_simps)
  with ab pos show False by linarith
qed

lemma domain_wall_scan_char:
  assumes "\<And>i. i \<in> set idx \<Longrightarrow> i < length (sublattice c) \<and> i < length spins"
    and "\<not> (mu < - 0.9 \<and> md < - 0.9)"
  shows "domain_wall_scan c spins (map int idx) mu md =
         Inr ((mu < - 0.9 \<or> (\<exists>i\<in>set idx. sublattice c ! i = 1 \<and> comp2 (spins ! i) < - 0.9)) \<and>
              (md < - 0.9 \<or> (\<exists>j\<in>set idx. sublattice c ! j = 1 \<and> comp2 (spins ! j) > 0.9)))"
  using assms
proof (induction idx arbitrary: mu md)
  case Nil
  then show ?case by simp
next
  case (Cons i idx)
  have i: "i < length (sublattice c)" "i < length spins" using Cons.prems(1) by auto
  have d: "dot spin_up (spins ! i) = comp2 (spins ! i)" "dot spin_down (spins ! i) = - comp2 (spins ! i)"
    by (cases "spins ! i"; simp add: spin_up_def spin_down_def)+
  show ?case
  proof (cases "sublattice c ! i = 1")
    case False
    then show ?thesis using Cons i by (auto simp: np_get_nat)
  next
    case True
    let ?mu = "min mu (comp2 (spins ! i))" and ?md = "min md (- comp2 (spins ! i))"
    show ?thesis
    proof (cases "?mu < - 0.9 \<and> ?md < - 0.9")
      case both: True
      then show ?thesis using True i d Cons.prems(2)
        by (auto simp: np_get_nat Let_def min_def split: if_splits)
    next
      case nb: False
      have "domain_wall_scan c spins (map int (i # idx)) mu md = domain_wall_scan c spins (map int idx) ?mu ?md"
        using True i d nb by (auto simp add: np_get_nat Let_def)
      also have "\<dots> = Inr ((?mu < - 0.9 \<or> (\<exists>i\<in>set idx. sublattice c ! i = 1 \<and> comp2 (spins ! i) < - 0.9)) \<and>
              (?md < - 0.9 \<or> (\<exists>j\<in>set idx. sublattice c ! j = 1 \<and> comp2 (spins ! j) > 0.9)))"
        using Cons.prems(1) nb by (intro Cons.IH) auto
      finally show ?thesis using True by (auto simp: min_def split: if_splits)
    qed
  qed
qed

lemma domain_wall_reference_iff:
  "domain_wall_reference c spins \<longleftrightarrow>
     (\<exists>i<nat (len c). \<exists>j<nat (len c). sublattice c ! i = 1 \<and> sublattice c ! j = 1 \<and>
         comp2 (spins ! i) > 0.9 \<and> comp2 (spins ! j) < - 0.9)"
  unfolding domain_wall_reference_def list_ex_iff set_upt Bex_def atLeastLessThan_iff by blast

text \<open>
  Claim C10. When the sublattice and spin arrays cover the \<open>len\<close> atoms,
  \<open>domain_wall_ferro_z_align\<close> returns the value of the reference definition: it is
  True exactly when two atoms \<open>i\<close>, \<open>j\<close> of sublattice \<open>+1\<close> have \<open>S_i.z > 0.9\<close> and
  \<open>S_j.z < -0.9\<close>. The right-hand side mentions neither the scan order nor any atom
  whose label is not \<open>+1\<close>.
\<close>

theorem domain_wall_refines_reference:
  assumes "nat (len c) \<le> length (sublattice c)" and "nat (len c) \<le> length spins"
  shows "domain_wall_ferro_z_align c spins = Inr (domain_wall_reference c spins) \<and>
    (domain_wall_ferro_z_align c spins = Inr True \<longleftrightarrow>
     (\<exists>i<nat (len c). \<exists>j<nat (len c). sublattice c ! i = 1 \<and> sublattice c ! j = 1 \<and>
         comp2 (spins ! i) > 0.9 \<and> comp2 (spins ! j) < - 0.9))"
proof -
  define P where "P i \<longleftrightarrow> sublattice c ! i = 1 \<and> comp2 (spins ! i) < - 0.9" for i
  define Q where "Q j \<longleftrightarrow> sublattice c ! j = 1 \<and> comp2 (spins ! j) > 0.9" for j
  have one: "\<not> ((1::real) < - 0.9 \<and> (1::real) < - 0.9)" by simp
  have "domain_wall_scan c spins (map int [0..<nat (len c)]) 1 1 =
      Inr (((1::real) < - 0.9 \<or> (\<exists>i\<in>set [0..<nat (len c)]. P i)) \<and>
           ((1::real) < - 0.9 \<or> (\<exists>j\<in>set [0..<nat (len c)]. Q j)))"
    unfolding P_def Q_def using assms one by (intro domain_wall_scan_char) auto
  then have scan: "domain_wall_ferro_z_align c spins =
      Inr ((\<exists>i<nat (len c). P i) \<and> (\<exists>j<nat (len c). Q j))"
    by (simp add: domain_wall_ferro_z_align_def range_py_def Bex_def)
  have ref: "domain_wall_reference c spins \<longleftrightarrow> (\<exists>i<nat (len c). P i) \<and> (\<exists>j<nat (len c). Q j)"
    unfolding domain_wall_reference_iff P_def Q_def by blast
  from scan ref have 1: "domain_wall_ferro_z_align c spins = Inr (domain_wall_reference c spins)"
    by simp
  show ?thesis unfolding 1 using domain_wall_reference_iff [of c spins] by simp
qed


theorem domain_wall_refines_reference_witness:
  "nat (len \<lparr> len = 3, vecinos = [], sublattice = [1, - 1, 1], positions = [] \<rparr>)
     \<le> length (sublattice \<lparr> len = 3, vecinos = [], sublattice = [1, - 1, 1], positions = [] \<rparr>) \<and>
   nat (len \<lparr> len = 3, vecinos = [], sublattice = [1, - 1, 1], positions = [] \<rparr>)
     \<le> length [(0, 0, 1), (0, 0, 1), (0, 0, - 1) :: vec3] \<and>
   domain_wall_ferro_z_align \<lparr> len = 3, vecinos = [], sublattice = [1, - 1, 1], positions = [] \<rparr>
     [(0, 0, 1), (0, 0, 1), (0, 0, - 1)] = Inr True"
  using domain_wall_refines_reference
    [of "\<lparr> len = 3, vecinos = [], sublattice = [1, - 1, 1], positions = [] \<rparr>"
        "[(0, 0, 1), (0, 0, 1), (0, 0, - 1)]"]
  by (simp add: domain_wall_reference_def upt_conv_Cons)

section \<open>Perfect order along z\<close>

lemma map_nth_upt: "n = length xs \<Longrightarrow> map (\<lambda>k. f (xs ! k)) [0..<n] = map f xs"
  by (rule nth_equalityI) simp_all

lemma sum_list_of_int: "sum_list (map real_of_int ls) = real_of_int (sum_list ls)"
  by (induction ls) simp_all

lemma ferro_weighted_sum:
  "sum_list (map (\<lambda>k. comp2 (replicate (length ls) (0, 0, 1) ! k) * real_of_int (ls ! k)) [0..<length ls])
   = real_of_int (sum_list ls)"
proof -
  have "map (\<lambda>k. comp2 (replicate (length ls) (0, 0, 1) ! k) * real_of_int (ls ! k)) [0..<length ls]
        = map real_of_int ls"
    by (rule nth_equalityI) simp_all
  then show ?thesis by (simp add: sum_list_of_int)
qed

lemma neel_plain_sum:
  "sum_list (map (\<lambda>k. comp2 (neel ls ! k)) [0..<length ls]) = real_of_int (sum_list ls)"
proof -
  have "map (\<lambda>k. comp2 (neel ls ! k)) [0..<length ls] = map real_of_int ls"
    by (rule nth_equalityI) (simp_all add: neel_def)
  then show ?thesis by (simp add: sum_list_of_int)
qed

lemma neel_weighted_sum:
  assumes "\<And>l. l \<in> set ls \<Longrightarrow> l = 1 \<or> l = - 1"
  shows "sum_list (map (\<lambda>k. comp2 (neel ls ! k) * real_of_int (ls ! k)) [0..<length ls]) = real (length ls)"
proof -
  have "map (\<lambda>k. comp2 (neel ls ! k) * real_of_int (ls ! k)) [0..<length ls] = map (\<lambda>l. 1) ls"
  proof (rule nth_equalityI)
    fix i assume "i < length (map (\<lambda>k. comp2 (neel ls ! k) * real_of_int (ls ! k)) [0..<length ls])"
    then have i: "i < length ls" by simp
    then have "ls ! i = 1 \<or> ls ! i = - 1" using assms by simp
    then show "map (\<lambda>k. comp2 (neel ls ! k) * real_of_int (ls ! k)) [0..<length ls] ! i = map (\<lambda>l. 1) ls ! i"
      using i by (auto simp: neel_def)
  qed simp
  then show ?thesis by (simp add: sum_list_triv)
qed

text \<open>
  Claim C7, amended. The claim as stated fails: see \<open>perfect_ferro_counterexample\<close>
  below, a one-atom lattice whose only label is \<open>-1\<close>. It holds for a context of
  \<open>n \<ge> 1\<close> atoms whose labels are all \<open>+1\<close> or \<open>-1\<close> and whose label sum is at most
  \<open>0.99 n\<close> in absolute value (a balanced bipartition has sum \<open>0\<close>): then the perfect
  ferromagnet is ferro-z aligned and not antiferro-z aligned, and the perfect Neel
  configuration is antiferro-z aligned and not ferro-z aligned.
\<close>

theorem perfect_order_z:
  assumes n: "0 < length (sublattice c)" "len c = int (length (sublattice c))"
    and pm: "\<forall>l\<in>set (sublattice c). l = 1 \<or> l = - 1"
    and bal: "\<bar>real_of_int (sum_list (sublattice c))\<bar> \<le> 0.99 * real (length (sublattice c))"
  shows "is_ferro_z_aligned c (replicate (length (sublattice c)) (0, 0, 1)) = Inr True \<and>
         is_antiferro_z_aligned c (replicate (length (sublattice c)) (0, 0, 1)) = Inr False \<and>
         is_antiferro_z_aligned c (neel (sublattice c)) = Inr True \<and>
         is_ferro_z_aligned c (neel (sublattice c)) = Inr False"
proof -
  let ?n = "length (sublattice c)"
  have nn: "nat (len c) = ?n" "len c \<noteq> 0" "real_of_int (len c) = real ?n" using n by simp_all
  have pos: "0 < real ?n" using n by simp
  have f1: "spins_z c (replicate ?n (0, 0, 1)) = Inr (map (\<lambda>k. comp2 (replicate ?n (0, 0, 1) ! k)) [0..<?n])"
    using spins_z_total [of c "replicate ?n (0, 0, 1)"] nn by simp
  have s1: "sum_list (map (\<lambda>k. comp2 (replicate ?n (0, 0, 1) ! k)) [0..<?n]) = real ?n"
    by (simp add: map_nth_upt sum_list_replicate)
  have a: "is_ferro_z_aligned c (replicate ?n (0, 0, 1)) = Inr True"
    using pos by (simp add: is_ferro_z_aligned_def f1 bind_err_def s1 nn)
  have f2: "spins_weighted comp2 c (replicate ?n (0, 0, 1))
      = Inr (map (\<lambda>k. comp2 (replicate ?n (0, 0, 1) ! k) * real_of_int (sublattice c ! k)) [0..<?n])"
    using spins_weighted_total [of c "replicate ?n (0, 0, 1)" comp2] nn by simp
  have q: "\<not> \<bar>real_of_int (sum_list (sublattice c))\<bar> / real ?n > 0.99"
    using bal pos by (simp add: field_simps)
  have b: "is_antiferro_z_aligned c (replicate ?n (0, 0, 1)) = Inr False"
    using q by (simp add: is_antiferro_z_aligned_def f2 bind_err_def ferro_weighted_sum nn)
  have f3: "spins_weighted comp2 c (neel (sublattice c))
      = Inr (map (\<lambda>k. comp2 (neel (sublattice c) ! k) * real_of_int (sublattice c ! k)) [0..<?n])"
    using spins_weighted_total [of c "neel (sublattice c)" comp2] nn by (simp add: neel_def)
  have s3: "sum_list (map (\<lambda>k. comp2 (neel (sublattice c) ! k) * real_of_int (sublattice c ! k)) [0..<?n]) = real ?n"
    using pm by (intro neel_weighted_sum) auto
  have d: "is_antiferro_z_aligned c (neel (sublattice c)) = Inr True"
    using pos by (simp add: is_antiferro_z_aligned_def f3 bind_err_def s3 nn)
  have f4: "spins_z c (neel (sublattice c)) = Inr (map (\<lambda>k. comp2 (neel (sublattice c) ! k)) [0..<?n])"
    using spins_z_total [of c "neel (sublattice c)"] nn by (simp add: neel_def)
  have e: "is_ferro_z_aligned c (neel (sublattice c)) = Inr False"
    using q by (simp add: is_ferro_z_aligned_def f4 bind_err_def neel_plain_sum nn)
  from a b d e show ?thesis by simp
qed

theorem perfect_order_z_witness:
  "is_ferro_z_aligned \<lparr> len = 2, vecinos = [(1, 1, 1), (0, 0, 0)], sublattice = [1, - 1], positions = [(0, 0, 0), (1, 0, 0)] \<rparr>
      [(0, 0, 1), (0, 0, 1)] = Inr True \<and>
   is_antiferro_z_aligned \<lparr> len = 2, vecinos = [(1, 1, 1), (0, 0, 0)], sublattice = [1, - 1], positions = [(0, 0, 0), (1, 0, 0)] \<rparr>
      [(0, 0, 1), (0, 0, 1)] = Inr False \<and>
   is_antiferro_z_aligned \<lparr> len = 2, vecinos = [(1, 1, 1), (0, 0, 0)], sublattice = [1, - 1], positions = [(0, 0, 0), (1, 0, 0)] \<rparr>
      (neel [1, - 1]) = Inr True \<and>
   is_ferro_z_aligned \<lparr> len = 2, vecinos = [(1, 1, 1), (0, 0, 0)], sublattice = [1, - 1], positions = [(0, 0, 0), (1, 0, 0)] \<rparr>
      (neel [1, - 1]) = Inr False"
  using perfect_order_z [of "\<lparr> len = 2, vecinos = [(1, 1, 1), (0, 0, 0)], sublattice = [1, - 1], positions = [(0, 0, 0), (1, 0, 0)] \<rparr>"]
  by simp

text \<open>
  The claim C7 as stated, at the one-atom context with label \<open>-1\<close> (what the
  labelling produces for an atom that is its own neighbour) and the spin \<open>(0, 0, 1)\<close>:
  the weighted sum is \<open>-1\<close>, so \<open>is_antiferro_z_aligned\<close> is True too.
\<close>

theorem perfect_ferro_counterexample:
  "\<not> (is_ferro_z_aligned \<lparr> len = 1, vecinos = [(0, 0, 0)], sublattice = [- 1], positions = [(0, 0, 0)] \<rparr> [(0, 0, 1)] = Inr True \<and>
      is_antiferro_z_aligned \<lparr> len = 1, vecinos = [(0, 0, 0)], sublattice = [- 1], positions = [(0, 0, 0)] \<rparr> [(0, 0, 1)] = Inr False)"
  by (simp add: is_antiferro_z_aligned_def spins_weighted_def range_py_def np_get_def bind_err_def)

text \<open>The label \<open>-1\<close> of that context is what the labelling computes for a single atom
  that is its own neighbour: the seed \<open>+1\<close> is negated three times.\<close>

lemma single_atom_label: "bfs_loop [(0, 0, 0)] ([1], [True], [0]) = Inr [- 1]"
  by (simp add: visit_neighbour_def np_get_def np_set_def bind_err_def)

section \<open>Conical order\<close>

lemma sqrt36: "sqrt 36 = 6"
  using real_sqrt_abs [of 6] by simp

lemma conical_atoms_example: "conical_atoms \<lparr> len = 4, vecinos = [(1, 1, 1), (0, 0, 0), (3, 3, 3), (2, 2, 2)],
           sublattice = [1, - 1, 1, - 1],
           positions = [(0, 0, 0), (1, 0, 0), (0, 1, 0), (1, 1, 0)] \<rparr>
       [(1, 0, 0), (0, 1, 0), (24 / 25, 0, 7 / 25), (24 / 25, 0, 7 / 25)]
       (enumerate_zip [(1, 0, 0), (0, 1, 0), (24 / 25, 0, 7 / 25), (24 / 25, 0, 7 / 25)] [(0, 0, 0), (1, 0, 0), (0, 1, 0), (1, 1, 0)])
       ((0, 0, 0), (0, 0, 0), 0)
     = Inr ((0, 0, 6), (0, 0, 0), 6)"
  by (simp add: enumerate_zip_def upt_conv_Cons conical_pair_def bind_err_def np_get_def norm3_def Let_def)

text \<open>
  Claim C1. The claim takes the mean of \<open>|S_i . rotation_vec|\<close> over the atoms; the
  source divides the sum over the atoms by \<open>count\<close>, the number of rotating neighbour
  pairs. On the four-atom lattice below (two atoms with perpendicular spins, two with
  parallel tilted spins) the six rotating pairs give \<open>rotation_vec = (0, 0, 1)\<close> and the
  sum is \<open>0.56\<close>: the source finds \<open>0.56 / 6 < 0.1\<close> and answers locally conical, while
  the mean over the four atoms is \<open>0.14\<close>.
\<close>

theorem is_conical_divides_by_count:
  "is_conical \<lparr> len = 4, vecinos = [(1, 1, 1), (0, 0, 0), (3, 3, 3), (2, 2, 2)],
           sublattice = [1, - 1, 1, - 1],
           positions = [(0, 0, 0), (1, 0, 0), (0, 1, 0), (1, 1, 0)] \<rparr>
       [(1, 0, 0), (0, 1, 0), (24 / 25, 0, 7 / 25), (24 / 25, 0, 7 / 25)] = Inr (True, False) \<and>
   \<not> conical_mean_over_atoms [(1, 0, 0), (0, 1, 0), (24 / 25, 0, 7 / 25), (24 / 25, 0, 7 / 25)] (0, 0, 1) < 0.1"
  by (simp add: is_conical_def conical_atoms_example bind_err_def sqrt36 conical_dots_def conical_mean_over_atoms_def Let_def)

section \<open>Totality of the predicates and the rule tables\<close>

lemma spins_component_total:
  assumes "nat (len c) \<le> length spins"
  shows "\<exists>xs. spins_component sel c spins = Inr xs"
proof -
  have "map_err (\<lambda>n. bind_err (np_get spins n) (\<lambda>s. Inr (sel s))) (range_py (len c))
        = Inr (map (\<lambda>n. sel (spins ! nat n)) (range_py (len c)))"
    using assms by (intro map_err_total) (auto simp: range_py_def np_get_nat bind_err_def)
  then show ?thesis by (simp add: spins_component_def)
qed

lemma np_get_in_range: "0 \<le> j \<Longrightarrow> j < int (length xs) \<Longrightarrow> np_get xs j = Inr (xs ! nat j)"
  by (simp add: np_get_def)

lemma valid_row:
  assumes "valid_context c" and "n < nat (len c)" and "j \<in> set (row_list (vecinos c ! n))"
  shows "0 \<le> j \<and> j < len c"
proof -
  have "vecinos c ! n \<in> set (vecinos c)" using assms(1,2) by (simp add: valid_context_def)
  then have "row_in_range (nat (len c)) (vecinos c ! n)"
    using assms(1) by (simp add: valid_context_def list_all_iff)
  then show ?thesis using assms(1,3) by (auto simp: row_in_range_def list_all_iff valid_context_def)
qed

lemma neighbour_mean_dot_total:
  assumes v: "valid_context c" and w: "well_formed_spins c spins" and n: "n < nat (len c)"
  shows "\<exists>m. neighbour_mean_dot c spins (int n) = Inr m"
proof -
  have ls: "length spins = nat (len c)" using w by (simp add: well_formed_spins_def)
  have lv: "length (vecinos c) = nat (len c)" using v by (simp add: valid_context_def)
  have "map_err (\<lambda>m. bind_err (np_get spins m) (\<lambda>s. Inr (dot (spins ! n) s))) (row_list (vecinos c ! n))
      = Inr (map (\<lambda>m. dot (spins ! n) (spins ! nat m)) (row_list (vecinos c ! n)))"
  proof (intro map_err_total)
    fix j assume "j \<in> set (row_list (vecinos c ! n))"
    then have "0 \<le> j \<and> j < len c" using valid_row [OF v n] by simp
    then show "bind_err (np_get spins j) (\<lambda>s. Inr (dot (spins ! n) s)) = Inr (dot (spins ! n) (spins ! nat j))"
      using ls by (simp add: np_get_in_range bind_err_def)
  qed
  then show ?thesis using n ls lv
    by (simp add: neighbour_mean_dot_def np_get_nat bind_err_def)
qed

lemma map_err_exists:
  assumes "\<And>x. x \<in> set xs \<Longrightarrow> \<exists>y. f x = Inr y"
  shows "\<exists>ys. map_err f xs = Inr ys"
  using assms
proof (induction xs)
  case Nil
  then show ?case by simp
next
  case (Cons x xs)
  then obtain y ys where "f x = Inr y" "map_err f xs = Inr ys" by (meson list.set_intros)
  then show ?case by simp
qed

lemma neighbour_means_total:
  assumes "valid_context c" and "well_formed_spins c spins"
  shows "\<exists>ms. map_err (neighbour_mean_dot c spins) (range_py (len c)) = Inr ms"
proof (rule map_err_exists)
  fix x assume "x \<in> set (range_py (len c))"
  then obtain n where "x = int n" "n < nat (len c)" by (auto simp: range_py_def)
  then show "\<exists>y. neighbour_mean_dot c spins x = Inr y"
    using neighbour_mean_dot_total [OF assms] by simp
qed

lemma is_local_ferro_antiferro_total:
  assumes "valid_context c" and "well_formed_spins c spins"
  shows "\<exists>a b. is_local_ferro_antiferro c spins = Inr (a, b)"
proof -
  obtain ms where "map_err (neighbour_mean_dot c spins) (range_py (len c)) = Inr ms"
    using neighbour_means_total [OF assms] by blast
  moreover have "len c \<noteq> 0" using assms(1) by (simp add: valid_context_def)
  ultimately show ?thesis by (simp add: is_local_ferro_antiferro_def bind_err_def Let_def)
qed

lemma is_random_total:
  assumes "valid_context c" and "well_formed_spins c spins"
  shows "\<exists>b. is_random c spins = Inr b"
proof -
  obtain ms where "map_err (neighbour_mean_dot c spins) (range_py (len c)) = Inr ms"
    using neighbour_means_total [OF assms] by blast
  then show ?thesis by (simp add: is_random_def bind_err_def Let_def)
qed

lemma is_xyz_aligned_total:
  assumes "nat (len c) \<le> length spins"
  shows "\<exists>a b. is_xyz_aligned c spins = Inr (a, b)"
proof -
  obtain zs where "spins_z c spins = Inr zs"
    using spins_component_total [OF assms, of comp2] by (auto simp: spins_z_def)
  then show ?thesis by (simp add: is_xyz_aligned_def bind_err_def Let_def)
qed

lemma is_ferro_z_aligned_total:
  assumes "nat (len c) \<le> length spins"
  shows "\<exists>b. is_ferro_z_aligned c spins = Inr b"
proof -
  obtain zs where "spins_z c spins = Inr zs"
    using spins_component_total [OF assms, of comp2] by (auto simp: spins_z_def)
  then show ?thesis by (simp add: is_ferro_z_aligned_def bind_err_def Let_def)
qed

lemma is_ferro_xy_aligned_total:
  assumes "nat (len c) \<le> length spins"
  shows "\<exists>b. is_ferro_xy_aligned c spins = Inr b"
proof -
  obtain xs ys zs where "spins_component comp0 c spins = Inr xs"
    "spins_component comp1 c spins = Inr ys" "spins_component comp2 c spins = Inr zs"
    using spins_component_total [OF assms] by meson
  then show ?thesis by (simp add: is_ferro_xy_aligned_def bind_err_def Let_def)
qed

lemma is_antiferro_z_aligned_total:
  assumes "nat (len c) \<le> length spins" and "nat (len c) \<le> length (sublattice c)"
  shows "\<exists>b. is_antiferro_z_aligned c spins = Inr b"
  by (simp add: is_antiferro_z_aligned_def bind_err_def Let_def spins_weighted_total [OF assms])

lemma is_antiferro_xy_aligned_total:
  assumes "nat (len c) \<le> length spins" and "nat (len c) \<le> length (sublattice c)"
  shows "\<exists>b. is_antiferro_xy_aligned c spins = Inr b"
  by (simp add: is_antiferro_xy_aligned_def bind_err_def Let_def spins_weighted_total [OF assms])

lemma domain_wall_total:
  assumes "nat (len c) \<le> length (sublattice c)" and "nat (len c) \<le> length spins"
  shows "\<exists>b. domain_wall_ferro_z_align c spins = Inr b"
proof -
  have "\<not> ((1::real) < - 0.9 \<and> (1::real) < - 0.9)" by simp
  with assms show ?thesis
    unfolding domain_wall_ferro_z_align_def range_py_def
    by (subst domain_wall_scan_char) auto
qed

lemma not_isl_Inr: "\<not> isl m \<Longrightarrow> \<exists>x. m = Inr x"
  by (cases m) simp_all

lemma conical_pair_total:
  assumes "0 \<le> j" and "j < int (length spins)" and "j < int (length (positions c))"
  shows "\<not> isl (conical_pair c spins spin_i position_i j st)"
  using assms
  by (cases st) (simp add: conical_pair_def bind_err_def np_get_in_range Let_def)

lemma conical_row_total:
  assumes "\<And>j. j \<in> set js \<Longrightarrow> 0 \<le> j \<and> j < int (length spins) \<and> j < int (length (positions c))"
  shows "\<not> isl (conical_row c spins spin_i position_i js st)"
  using assms
proof (induction js arbitrary: st)
  case Nil
  then show ?case by simp
next
  case (Cons j js)
  have "\<not> isl (conical_pair c spins spin_i position_i j st)"
    using Cons.prems by (intro conical_pair_total) auto
  then obtain st1 where "conical_pair c spins spin_i position_i j st = Inr st1"
    using not_isl_Inr by blast
  moreover have "\<not> isl (conical_row c spins spin_i position_i js st1)"
    using Cons.prems by (intro Cons.IH) auto
  ultimately show ?case by (simp add: bind_err_def)
qed

lemma conical_atoms_total:
  assumes v: "valid_context c" and w: "well_formed_spins c spins"
    and idx: "\<And>a. a \<in> set atoms \<Longrightarrow> 0 \<le> fst a \<and> fst a < len c"
  shows "\<not> isl (conical_atoms c spins atoms st)"
  using idx
proof (induction atoms arbitrary: st)
  case Nil
  then show ?case by simp
next
  case (Cons a atoms)
  obtain i s p where a: "a = (i, s, p)" by (cases a)
  have i: "0 \<le> i" "i < len c" using Cons.prems [of a] a by auto
  have lv: "length (vecinos c) = nat (len c)" "length (positions c) = nat (len c)"
    using v by (simp_all add: valid_context_def)
  have ls: "length spins = nat (len c)" using w by (simp add: well_formed_spins_def)
  have row: "np_get (vecinos c) i = Inr (vecinos c ! nat i)"
    using i lv by (simp add: np_get_in_range)
  have "\<And>j. j \<in> set (row_list (vecinos c ! nat i)) \<Longrightarrow>
          0 \<le> j \<and> j < int (length spins) \<and> j < int (length (positions c))"
    using valid_row [OF v, of "nat i"] i ls lv by auto
  then have "\<not> isl (conical_row c spins s p (row_list (vecinos c ! nat i)) st)"
    by (rule conical_row_total)
  then obtain st1 where "conical_row c spins s p (row_list (vecinos c ! nat i)) st = Inr st1"
    using not_isl_Inr by blast
  moreover have "\<not> isl (conical_atoms c spins atoms st1)"
    using Cons.prems by (intro Cons.IH) auto
  ultimately show ?case using a row by (simp add: bind_err_def)
qed

lemma is_conical_total:
  assumes v: "valid_context c" and w: "well_formed_spins c spins"
  shows "\<not> isl (is_conical c spins)"
proof -
  have ls: "length spins = nat (len c)" using w by (simp add: well_formed_spins_def)
  have lp: "length (positions c) = nat (len c)" using v by (simp add: valid_context_def)
  have "\<And>a. a \<in> set (enumerate_zip spins (positions c)) \<Longrightarrow> 0 \<le> fst a \<and> fst a < len c"
    using ls lp by (auto simp: enumerate_zip_def dest!: set_zip_leftD)
  then have "\<not> isl (conical_atoms c spins (enumerate_zip spins (positions c)) ((0, 0, 0), (0, 0, 0), 0))"
    by (rule conical_atoms_total [OF v w])
  then obtain st where st: "conical_atoms c spins (enumerate_zip spins (positions c)) ((0, 0, 0), (0, 0, 0), 0) = Inr st"
    using not_isl_Inr by blast
  obtain r t k where rtk: "st = (r, t, k)" by (cases st)
  have "spins \<noteq> []" using ls v by (auto simp: valid_context_def)
  then obtain x xs where "conical_dots spins (vdiv r (sqrt (dot r r))) = x # xs"
    by (cases spins) (auto simp: conical_dots_def)
  then show ?thesis using st rtk
    by (simp add: is_conical_def bind_err_def Let_def)
qed

lemma first_match_in_colors:
  assumes "\<And>r. r \<in> set rules \<Longrightarrow> snd r \<in> set cols" and "fallback \<in> set cols"
  shows "first_match rules fallback \<in> set cols"
  using assms
proof (induction rules)
  case Nil
  then show ?case by simp
next
  case (Cons r rules)
  obtain b col where r: "r = (b, col)" by (cases r)
  have "col \<in> set cols" using Cons.prems(1) [of r] r by simp
  moreover have "first_match rules fallback \<in> set cols"
    using Cons.prems by (intro Cons.IH) auto
  ultimately show ?case using r by simp
qed

text \<open>
  Claim C4. For a valid bound context and a well-formed spin array, no predicate raises
  and both rule tables return a colour of their enumerated lists. The colour of
  \<open>data_ferro_spiral_skyrmions\<close> is the first match of the ordered rules ferro-z,
  antiferro-z, ferro-xy, antiferro-xy, globally conical, locally conical, with white as
  the fallback.
\<close>

theorem rule_tables_total:
  assumes v: "valid_context c" and w: "well_formed_spins c spins"
  shows "(\<exists>fz afz fxy afxy lc gc.
            is_ferro_z_aligned c spins = Inr fz \<and> is_antiferro_z_aligned c spins = Inr afz \<and>
            is_ferro_xy_aligned c spins = Inr fxy \<and> is_antiferro_xy_aligned c spins = Inr afxy \<and>
            is_conical c spins = Inr (lc, gc) \<and>
            data_ferro_spiral_skyrmions c spins =
              Inr (first_match [(fz, rgb 255 231 113), (afz, rgb 113 255 133),
                                (fxy, rgb 255 113 180), (afxy, rgb 113 193 255),
                                (gc, rgb 177 113 255), (lc, rgb 255 113 113)]
                     (rgb 255 255 255))) \<and>
         (\<exists>col. data_ferro_spiral_skyrmions c spins = Inr col \<and>
                col \<in> set colors_ferro_spiral_skyrmions) \<and>
         (\<exists>col. data_ferro_and_align_with_domain_walls c spins = Inr col \<and>
                col \<in> set colors_ferro_and_align_with_domain_walls)"
proof -
  have ls: "nat (len c) \<le> length spins" using w by (simp add: well_formed_spins_def)
  have lsub: "nat (len c) \<le> length (sublattice c)" using v by (simp add: valid_context_def)
  obtain fz where fz: "is_ferro_z_aligned c spins = Inr fz"
    using is_ferro_z_aligned_total [OF ls] by blast
  obtain afz where afz: "is_antiferro_z_aligned c spins = Inr afz"
    using is_antiferro_z_aligned_total [OF ls lsub] by blast
  obtain fxy where fxy: "is_ferro_xy_aligned c spins = Inr fxy"
    using is_ferro_xy_aligned_total [OF ls] by blast
  obtain afxy where afxy: "is_antiferro_xy_aligned c spins = Inr afxy"
    using is_antiferro_xy_aligned_total [OF ls lsub] by blast
  obtain con where con: "is_conical c spins = Inr con"
    using is_conical_total [OF v w] not_isl_Inr by blast
  obtain lc gc where lg: "con = (lc, gc)" by (cases con)
  obtain loc where loc: "is_local_ferro_antiferro c spins = Inr loc"
    using is_local_ferro_antiferro_total [OF v w] by blast
  obtain fl afl where fa: "loc = (fl, afl)" by (cases loc)
  obtain xyz where xyz: "is_xyz_aligned c spins = Inr xyz"
    using is_xyz_aligned_total [OF ls] by blast
  obtain za xya where zx: "xyz = (za, xya)" by (cases xyz)
  obtain dw where dw: "domain_wall_ferro_z_align c spins = Inr dw"
    using domain_wall_total [OF lsub ls] by blast
  obtain rnd where rnd: "is_random c spins = Inr rnd"
    using is_random_total [OF v w] by blast
  have spiral: "data_ferro_spiral_skyrmions c spins =
      Inr (first_match [(fz, rgb 255 231 113), (afz, rgb 113 255 133),
                        (fxy, rgb 255 113 180), (afxy, rgb 113 193 255),
                        (gc, rgb 177 113 255), (lc, rgb 255 113 113)] (rgb 255 255 255))"
    by (simp add: data_ferro_spiral_skyrmions_def fz afz fxy afxy con lg bind_err_def)
  have "first_match [(fz, rgb 255 231 113), (afz, rgb 113 255 133),
                        (fxy, rgb 255 113 180), (afxy, rgb 113 193 255),
                        (gc, rgb 177 113 255), (lc, rgb 255 113 113)] (rgb 255 255 255)
        \<in> set colors_ferro_spiral_skyrmions"
    unfolding colors_ferro_spiral_skyrmions_def
    by (rule first_match_in_colors) auto
  with spiral have two: "\<exists>col. data_ferro_spiral_skyrmions c spins = Inr col \<and>
                col \<in> set colors_ferro_spiral_skyrmions" by blast
  have walls: "data_ferro_and_align_with_domain_walls c spins =
      Inr (first_match [(afl \<and> \<not> za \<and> \<not> xya, rgb 113 255 240),
                        (za \<and> \<not> fl \<and> \<not> afl, rgb 194 255 113),
                        (xya \<and> \<not> fl \<and> \<not> afl, rgb 177 113 255),
                        (fl \<and> \<not> za \<and> \<not> xya, rgb 255 113 113),
                        (fz, rgb 255 231 113), (afz, rgb 113 255 133),
                        (fxy, rgb 255 113 180), (afxy, rgb 113 193 255),
                        (fl \<and> za \<and> dw, rgb 255 150 113),
                        (afl \<and> za \<and> dw, rgb 50 194 78),
                        (rnd, (0, 0, 0))] (rgb 255 255 255))"
    by (simp add: data_ferro_and_align_with_domain_walls_def fz afz fxy afxy loc fa xyz zx dw rnd bind_err_def)
  have "first_match [(afl \<and> \<not> za \<and> \<not> xya, rgb 113 255 240),
                        (za \<and> \<not> fl \<and> \<not> afl, rgb 194 255 113),
                        (xya \<and> \<not> fl \<and> \<not> afl, rgb 177 113 255),
                        (fl \<and> \<not> za \<and> \<not> xya, rgb 255 113 113),
                        (fz, rgb 255 231 113), (afz, rgb 113 255 133),
                        (fxy, rgb 255 113 180), (afxy, rgb 113 193 255),
                        (fl \<and> za \<and> dw, rgb 255 150 113),
                        (afl \<and> za \<and> dw, rgb 50 194 78),
                        (rnd, (0, 0, 0))] (rgb 255 255 255)
        \<in> set colors_ferro_and_align_with_domain_walls"
    unfolding colors_ferro_and_align_with_domain_walls_def
    by (rule first_match_in_colors) auto
  with walls have three: "\<exists>col. data_ferro_and_align_with_domain_walls c spins = Inr col \<and>
                col \<in> set colors_ferro_and_align_with_domain_walls" by blast
  from fz afz fxy afxy con lg spiral two three show ?thesis by blast
qed

theorem rule_tables_total_witness:
  "valid_context \<lparr> len = 2, vecinos = [(1, 1, 1), (0, 0, 0)], sublattice = [1, - 1],
                   positions = [(0, 0, 0), (1, 0, 0)] \<rparr> \<and>
   well_formed_spins \<lparr> len = 2, vecinos = [(1, 1, 1), (0, 0, 0)], sublattice = [1, - 1],
                       positions = [(0, 0, 0), (1, 0, 0)] \<rparr> [(0, 0, 1), (0, 0, 1)] \<and>
   data_ferro_spiral_skyrmions \<lparr> len = 2, vecinos = [(1, 1, 1), (0, 0, 0)], sublattice = [1, - 1],
                       positions = [(0, 0, 0), (1, 0, 0)] \<rparr> [(0, 0, 1), (0, 0, 1)]
     = Inr (rgb 255 231 113)"
proof -
  let ?c = "\<lparr> len = 2, vecinos = [(1, 1, 1), (0, 0, 0)], sublattice = [1, - 1],
                   positions = [(0, 0, 0), (1, 0, 0)] \<rparr>"
  let ?s = "[(0, 0, 1), (0, 0, 1)] :: vec3 list"
  have v: "valid_context ?c" by (simp add: valid_context_def row_in_range_def)
  have w: "well_formed_spins ?c ?s" by (simp add: well_formed_spins_def)
  have fz: "is_ferro_z_aligned ?c ?s = Inr True"
    by (simp add: is_ferro_z_aligned_def spins_z_def spins_component_def range_py_def
        np_get_def bind_err_def upt_conv_Cons)
  from rule_tables_total [OF v w] fz v w show ?thesis by auto
qed

section \<open>Sublattice labelling\<close>

lemma np_set_nat: "n < length xs \<Longrightarrow> np_set xs (int n) v = Inr (xs[n := v])"
  by (simp add: np_set_def)

lemma labelled_neighbours_update:
  assumes "\<And>w. w \<in> set vs \<Longrightarrow> w \<noteq> u"
  shows "labelled_neighbours (subl[u := x]) vs = labelled_neighbours subl vs"
  unfolding labelled_neighbours_def
proof (rule filter_cong)
  fix w assume "w \<in> set vs"
  then have "w \<noteq> u" using assms by blast
  then show "(subl[u := x] ! w \<noteq> 0) = (subl ! w \<noteq> 0)" by simp
qed simp

lemma labelled_neighbours_subset: "set (labelled_neighbours subl vs) \<subseteq> set vs"
  by (simp add: labelled_neighbours_def)

lemma visit_row_labels:
  assumes "u < length subl" and "length checked = length subl"
    and "\<And>v. v \<in> set vs \<Longrightarrow> v < length subl \<and> v \<noteq> u"
  shows "\<exists>checked' queue'.
           visit_row (int u) (map int vs) (subl, checked, queue) =
             Inr (if labelled_neighbours subl vs = [] then subl
                  else subl[u := - (subl ! last (labelled_neighbours subl vs))],
                  checked', queue')"
  using assms
proof (induction vs arbitrary: subl checked queue)
  case Nil
  then show ?case by (simp add: labelled_neighbours_def)
next
  case (Cons v vs)
  have v: "v < length subl" "v \<noteq> u" "v < length checked" using Cons.prems by auto
  have rest: "\<And>w. w \<in> set vs \<Longrightarrow> w < length subl \<and> w \<noteq> u" using Cons.prems(3) by auto
  let ?R = "\<lambda>s. if labelled_neighbours s vs = [] then s
                else s[u := - (s ! last (labelled_neighbours s vs))]"
  show ?case
  proof (cases "subl ! v = 0")
    case True
    have ln: "labelled_neighbours subl (v # vs) = labelled_neighbours subl vs"
      using True by (simp add: labelled_neighbours_def)
    have "\<exists>c1 q1. visit_neighbour (int u) (int v) (subl, checked, queue) = Inr (subl, c1, q1)
             \<and> length c1 = length subl"
    proof (cases "checked ! v")
      case True
      then have "visit_neighbour (int u) (int v) (subl, checked, queue) = Inr (subl, checked, queue)"
        using \<open>subl ! v = 0\<close> v by (simp add: visit_neighbour_def bind_err_def np_get_nat)
      then show ?thesis using Cons.prems(2) by blast
    next
      case False
      then have "visit_neighbour (int u) (int v) (subl, checked, queue)
            = Inr (subl, checked[v := True], queue @ [int v])"
        using \<open>subl ! v = 0\<close> v by (simp add: visit_neighbour_def bind_err_def np_get_nat np_set_nat)
      moreover have "length (checked[v := True]) = length subl" using Cons.prems(2) by simp
      ultimately show ?thesis by blast
    qed
    then obtain c1 q1 where step:
      "visit_neighbour (int u) (int v) (subl, checked, queue) = Inr (subl, c1, q1)"
      and c1: "length c1 = length subl" by blast
    obtain checked' queue' where run:
      "visit_row (int u) (map int vs) (subl, c1, q1) = Inr (?R subl, checked', queue')"
      using Cons.IH [OF Cons.prems(1) c1 rest, of q1] by blast
    have "visit_row (int u) (map int (v # vs)) (subl, checked, queue) = Inr (?R subl, checked', queue')"
      using step run by simp
    then show ?thesis unfolding ln by blast
  next
    case False
    let ?s1 = "subl[u := - (subl ! v)]"
    have step: "visit_neighbour (int u) (int v) (subl, checked, queue) = Inr (?s1, checked, queue)"
      using False v Cons.prems(1)
      by (simp add: visit_neighbour_def bind_err_def np_get_nat np_set_nat)
    have ln1: "labelled_neighbours ?s1 vs = labelled_neighbours subl vs"
      using rest by (intro labelled_neighbours_update) auto
    have lnv: "labelled_neighbours subl (v # vs) = v # labelled_neighbours subl vs"
      using False by (simp add: labelled_neighbours_def)
    have len1: "u < length ?s1" "length checked = length ?s1" using Cons.prems by simp_all
    have rest1: "\<And>w. w \<in> set vs \<Longrightarrow> w < length ?s1 \<and> w \<noteq> u" using rest by simp
    obtain checked' queue' where run:
      "visit_row (int u) (map int vs) (?s1, checked, queue) = Inr (?R ?s1, checked', queue')"
      using Cons.IH [OF len1 rest1, of queue] by blast
    have eq: "?R ?s1 = subl[u := - (subl ! last (v # labelled_neighbours subl vs))]"
    proof (cases "labelled_neighbours subl vs = []")
      case True
      then show ?thesis using ln1 by simp
    next
      case ne: False
      then have "last (labelled_neighbours subl vs) \<in> set vs"
        using labelled_neighbours_subset [of subl vs] last_in_set by blast
      then have "last (labelled_neighbours subl vs) \<noteq> u" using rest by blast
      then have "?s1 ! last (labelled_neighbours subl vs) = subl ! last (labelled_neighbours subl vs)"
        by simp
      then show ?thesis using ln1 ne by simp
    qed
    have "visit_row (int u) (map int (v # vs)) (subl, checked, queue)
          = Inr (subl[u := - (subl ! last (v # labelled_neighbours subl vs))], checked', queue')"
      using step run eq by simp
    then show ?thesis unfolding lnv by auto
  qed
qed

text \<open>
  Claim C2, amended. While the atom \<open>u\<close> taken from the queue is processed, every
  neighbour that already carries a nonzero label overwrites the label of \<open>u\<close> in turn, so
  the label of \<open>u\<close> ends as the negation of the label of the last such neighbour in
  neighbour-array order (for neighbours that are atoms other than \<open>u\<close> itself). The
  claim as stated, with the first such neighbour, fails: see
  \<open>first_labelled_counterexample\<close>.
\<close>

theorem visit_row_last_labelled:
  assumes "u < length subl" and "length checked = length subl"
    and "\<forall>v\<in>set vs. v < length subl \<and> v \<noteq> u"
    and "labelled_neighbours subl vs \<noteq> []"
  shows "\<exists>checked' queue'.
           visit_row (int u) (map int vs) (subl, checked, queue) =
             Inr (subl[u := - (subl ! last (labelled_neighbours subl vs))], checked', queue')"
  using visit_row_labels [of u subl checked vs queue] assms by auto

theorem visit_row_last_labelled_witness:
  "visit_row 2 [0, 1, 1] ([1, - 1, 0], [True, True, True], []) =
     Inr ([1, - 1, 0][2 := - ([1, - 1, 0] ! last (labelled_neighbours [1, - 1, 0] [0, 1, 1]))],
          [True, True, True], [])"
  using visit_row_last_labelled [of 2 "[1, - 1, 0]" "[True, True, True]" "[0, 1, 1]" "[]"]
  by (simp add: labelled_neighbours_def visit_neighbour_def np_get_def np_set_def bind_err_def)

text \<open>
  The claim C2 as stated, on the triangle lattice: when atom \<open>2\<close> is processed its
  neighbours \<open>0\<close> and \<open>1\<close> carry the labels \<open>+1\<close> and \<open>-1\<close>; the first labelled neighbour
  is atom \<open>0\<close>, which would give the label \<open>-1\<close>, and the source leaves \<open>+1\<close>.
\<close>

theorem first_labelled_counterexample:
  "labelled_neighbours [1, - 1, 0] [0, 1, 1] = [0, 1, 1] \<and>
   visit_row 2 [0, 1, 1] ([1, - 1, 0], [True, True, True], []) =
     Inr ([1, - 1, 1], [True, True, True], []) \<and>
   [1, - 1, 1 :: int] ! 2 \<noteq> - ([1, - 1, 0] ! hd (labelled_neighbours [1, - 1, 0] [0, 1, 1])) \<and>
   set_sublattice (triangle_lattice [0, 0, 0]) = Inr (triangle_lattice [1, - 1, 1])"
  by (simp add: labelled_neighbours_def visit_neighbour_def np_get_def np_set_def bind_err_def
      set_sublattice_def triangle_lattice_def)

lemma seed_unchanged: "subl \<noteq> [] \<Longrightarrow> subl ! 0 = 1 \<Longrightarrow> np_set subl 0 (1::int) = Inr subl"
  by (cases subl) (simp_all add: np_set_def)

lemma np_get_nonempty: "np_get xs i = Inr x \<Longrightarrow> xs \<noteq> []"
  by (cases xs) (auto simp: np_get_def split: if_splits)

lemma visit_row_coloured:
  assumes "subl \<noteq> []" and "subl ! 0 = 1"
    and "\<And>v. v \<in> set vs \<Longrightarrow> np_get subl v = Inr (- 1)"
  shows "visit_row 0 vs (subl, checked, queue) = Inr (subl, checked, queue)"
  using assms(3)
proof (induction vs)
  case Nil
  then show ?case by simp
next
  case (Cons v vs)
  have "np_set subl 0 1 = Inr subl"
    using assms(1,2) by (rule seed_unchanged)
  moreover have "np_get subl v = Inr (- 1)" using Cons.prems by simp
  ultimately have "visit_neighbour 0 v (subl, checked, queue) = Inr (subl, checked, queue)"
    by (simp add: visit_neighbour_def bind_err_def)
  then show ?case using Cons by simp
qed

lemma set_sublattice_fields:
  assumes "set_sublattice l = Inr l1"
  shows "n_atoms l1 = n_atoms l \<and> vecinos_l l1 = vecinos_l l \<and> 1 \<le> n_atoms l \<and> vecinos_l l \<noteq> []"
proof -
  from assms have n0: "\<not> n_atoms l < 0"
    by (auto simp: set_sublattice_def split: if_splits)
  from assms n0 obtain subl checked subl' where
    s: "np_set (sublattice_l l) 0 1 = Inr subl"
    and c: "np_set (replicate (nat (n_atoms l)) False) 0 True = Inr checked"
    and b: "bfs_loop (vecinos_l l) (subl, checked, [0]) = Inr subl'"
    and r: "l1 = l\<lparr> sublattice_l := subl' \<rparr>"
    by (auto simp: set_sublattice_def bind_err_def split: sum.splits)
  from c have "1 \<le> n_atoms l" by (auto simp: np_set_def split: if_splits)
  moreover from b have "vecinos_l l \<noteq> []"
    by (auto simp: np_get_def split: sum.splits)
  ultimately show ?thesis using r by simp
qed

lemma label_inv_iff:
  "label_inv n t (subl, checked, queue) \<longleftrightarrow>
     length subl = n \<and> length checked = n \<and>
     (\<forall>v<n. subl ! v = 0 \<or> subl ! v = t v) \<and> subl ! 0 = 1 \<and>
     checked ! 0 \<and> 0 \<notin> set queue \<and> (\<forall>x\<in>set queue. 0 \<le> x \<and> x < int n)"
  by (auto simp: label_inv_def list_all_iff)

lemma neighbour_facts:
  assumes "valid_neighbours vec" and "symmetric_neighbours vec" and "proper_colouring colour vec"
    and "u < length vec" and "w \<in> set (row_list (vec ! u))"
  shows "0 \<le> w" and "w < int (length vec)" and "int u \<in> set (row_list (vec ! nat w))"
    and "side colour (nat w) = - side colour u" and "nat w \<noteq> u"
proof -
  have "vec ! u \<in> set vec" using assms(4) by simp
  then have "row_in_range (length vec) (vec ! u)"
    using assms(1) by (simp add: valid_neighbours_def list_all_iff)
  then show "0 \<le> w" "w < int (length vec)"
    using assms(5) by (simp_all add: row_in_range_def list_all_iff)
  show "int u \<in> set (row_list (vec ! nat w))"
    using assms(2,4,5) by (simp add: symmetric_neighbours_def list_all_iff)
  have c: "colour (nat w) \<noteq> colour u"
    using assms(3,4,5) by (simp add: proper_colouring_def list_all_iff)
  then show "nat w \<noteq> u" by auto
  show "side colour (nat w) = - side colour u"
    using c by (auto simp: side_def)
qed

lemma visit_neighbour_inv:
  assumes inv: "label_inv n t (s, c, q)"
    and u: "u < n" "u \<noteq> 0"
    and w: "0 \<le> w" "w < int n" "t (nat w) = - t u" "nat w \<noteq> u"
  shows "\<exists>s' c' q'. visit_neighbour (int u) w (s, c, q) = Inr (s', c', q') \<and>
           label_inv n t (s', c', q') \<and> set q \<subseteq> set q' \<and>
           (\<forall>v<n. s ! v \<noteq> 0 \<longrightarrow> s' ! v \<noteq> 0) \<and> (s ! nat w \<noteq> 0 \<longrightarrow> s' ! u \<noteq> 0)"
proof -
  from inv have L: "length s = n" "length c = n"
    and A: "\<forall>v<n. s ! v = 0 \<or> s ! v = t v" and B: "s ! 0 = 1"
    and I0: "c ! 0" "0 \<notin> set q" and Q: "\<forall>x\<in>set q. 0 \<le> x \<and> x < int n"
    by (simp_all add: label_inv_iff)
  have wn: "nat w < n" using w by simp
  have gs: "np_get s w = Inr (s ! nat w)" using w L by (simp add: np_get_def)
  show ?thesis
  proof (cases "s ! nat w = 0")
    case False
    let ?s' = "s[u := - (s ! nat w)]"
    have step: "visit_neighbour (int u) w (s, c, q) = Inr (?s', c, q)"
      using False gs u L by (simp add: visit_neighbour_def bind_err_def np_set_def)
    have "s ! nat w = t (nat w)" using A wn False by auto
    then have new: "?s' ! u = t u" using w(3) u L by simp
    have A': "\<forall>v<n. ?s' ! v = 0 \<or> ?s' ! v = t v"
    proof (intro allI impI)
      fix v assume "v < n"
      then show "?s' ! v = 0 \<or> ?s' ! v = t v"
        using A new by (cases "v = u") auto
    qed
    have "label_inv n t (?s', c, q)"
      using L A' B I0 Q u by (simp add: label_inv_iff)
    moreover have "\<forall>v<n. s ! v \<noteq> 0 \<longrightarrow> ?s' ! v \<noteq> 0"
    proof (intro allI impI)
      fix v assume "v < n" "s ! v \<noteq> 0"
      then show "?s' ! v \<noteq> 0" using False u L by (cases "v = u") auto
    qed
    moreover have "?s' ! u \<noteq> 0" using False u L by simp
    ultimately show ?thesis using step by auto
  next
    case True
    have gc: "np_get c w = Inr (c ! nat w)" using w L by (simp add: np_get_def)
    show ?thesis
    proof (cases "c ! nat w")
      case seen: True
      have "visit_neighbour (int u) w (s, c, q) = Inr (s, c, q)"
        using True gs gc seen by (simp add: visit_neighbour_def bind_err_def)
      then show ?thesis using inv True by auto
    next
      case False
      have w0: "w \<noteq> 0" using False I0 by (cases "w = 0") auto
      have step: "visit_neighbour (int u) w (s, c, q) = Inr (s, c[nat w := True], q @ [w])"
        using True gs gc False w L by (simp add: visit_neighbour_def bind_err_def np_set_def)
      have "nat w \<noteq> 0" using w0 w by simp
      then have "(c[nat w := True]) ! 0" using I0 by simp
      then have "label_inv n t (s, c[nat w := True], q @ [w])"
        using L A B I0 Q w w0 by (simp add: label_inv_iff)
      then show ?thesis using step True by auto
    qed
  qed
qed

lemma visit_row_inv:
  assumes inv: "label_inv n t (s, c, q)"
    and u: "u < n" "u \<noteq> 0"
    and todo: "\<And>w. w \<in> set todo \<Longrightarrow> 0 \<le> w \<and> w < int n \<and> t (nat w) = - t u \<and> nat w \<noteq> u"
  shows "\<exists>s' c' q'. visit_row (int u) todo (s, c, q) = Inr (s', c', q') \<and>
           label_inv n t (s', c', q') \<and> set q \<subseteq> set q' \<and>
           (\<forall>v<n. s ! v \<noteq> 0 \<longrightarrow> s' ! v \<noteq> 0) \<and> (0 \<in> set todo \<longrightarrow> s' ! u \<noteq> 0)"
  using inv todo
proof (induction todo arbitrary: s c q)
  case Nil
  then show ?case by simp
next
  case (Cons w todo)
  have w: "0 \<le> w" "w < int n" "t (nat w) = - t u" "nat w \<noteq> u"
    using Cons.prems(2) [of w] by simp_all
  from visit_neighbour_inv [OF Cons.prems(1) u w] obtain s1 c1 q1 where
    step: "visit_neighbour (int u) w (s, c, q) = Inr (s1, c1, q1)"
    and inv1: "label_inv n t (s1, c1, q1)" and sub1: "set q \<subseteq> set q1"
    and nz1: "\<forall>v<n. s ! v \<noteq> 0 \<longrightarrow> s1 ! v \<noteq> 0"
    and lab1: "s ! nat w \<noteq> 0 \<longrightarrow> s1 ! u \<noteq> 0"
    by blast
  have rest: "\<And>x. x \<in> set todo \<Longrightarrow> 0 \<le> x \<and> x < int n \<and> t (nat x) = - t u \<and> nat x \<noteq> u"
    using Cons.prems(2) by simp
  from Cons.IH [OF inv1 rest] obtain s2 c2 q2 where
    run: "visit_row (int u) todo (s1, c1, q1) = Inr (s2, c2, q2)"
    and inv2: "label_inv n t (s2, c2, q2)" and sub2: "set q1 \<subseteq> set q2"
    and nz2: "\<forall>v<n. s1 ! v \<noteq> 0 \<longrightarrow> s2 ! v \<noteq> 0"
    and lab2: "0 \<in> set todo \<longrightarrow> s2 ! u \<noteq> 0"
    by blast
  have all: "visit_row (int u) (w # todo) (s, c, q) = Inr (s2, c2, q2)"
    using step run by simp
  have nz: "\<forall>v<n. s ! v \<noteq> 0 \<longrightarrow> s2 ! v \<noteq> 0" using nz1 nz2 by blast
  have "s ! 0 = 1" using Cons.prems(1) by (simp add: label_inv_iff)
  then have "w = 0 \<longrightarrow> s2 ! u \<noteq> 0" using lab1 nz2 u by auto
  then have lab: "0 \<in> set (w # todo) \<longrightarrow> s2 ! u \<noteq> 0" using lab2 by auto
  from all inv2 sub1 sub2 nz lab show ?case by blast
qed

lemma first_row:
  assumes todo: "\<And>w. w \<in> set todo \<Longrightarrow> 0 < w \<and> w < int n \<and> s ! nat w = 0"
    and L: "length s = n" "length c = n"
    and I0: "c ! 0" "0 \<notin> set q"
    and Q: "\<forall>x\<in>set q. 0 \<le> x \<and> x < int n"
    and E: "\<forall>v<n. c ! v \<longrightarrow> v = 0 \<or> int v \<in> set q"
  shows "\<exists>c' q'. visit_row 0 todo (s, c, q) = Inr (s, c', q') \<and> length c' = n \<and> c' ! 0 \<and>
           0 \<notin> set q' \<and> (\<forall>x\<in>set q'. 0 \<le> x \<and> x < int n) \<and>
           (\<forall>v<n. c' ! v \<longrightarrow> v = 0 \<or> int v \<in> set q') \<and> set q \<subseteq> set q' \<and>
           (\<forall>w\<in>set todo. w \<in> set q')"
  using todo L(2) I0 Q E
proof (induction todo arbitrary: c q)
  case Nil
  then show ?case by simp
next
  case (Cons w todo)
  have w: "0 < w" "w < int n" "s ! nat w = 0" using Cons.prems(1) [of w] by simp_all
  have gs: "np_get s w = Inr 0" using w L by (simp add: np_get_def)
  have gc: "np_get c w = Inr (c ! nat w)" using w Cons.prems(2) by (simp add: np_get_def)
  have rest: "\<And>x. x \<in> set todo \<Longrightarrow> 0 < x \<and> x < int n \<and> s ! nat x = 0"
    using Cons.prems(1) by simp
  have wn: "nat w < n" "nat w \<noteq> 0" "int (nat w) = w" using w by simp_all
  show ?case
  proof (cases "c ! nat w")
    case True
    have step: "visit_neighbour 0 w (s, c, q) = Inr (s, c, q)"
      using gs gc True by (simp add: visit_neighbour_def bind_err_def)
    have inq: "w \<in> set q" using Cons.prems(6) wn True by force
    from Cons.IH [OF rest Cons.prems(2-6)] obtain c' q' where
      r: "visit_row 0 todo (s, c, q) = Inr (s, c', q')" "length c' = n" "c' ! 0" "0 \<notin> set q'"
        "\<forall>x\<in>set q'. 0 \<le> x \<and> x < int n" "\<forall>v<n. c' ! v \<longrightarrow> v = 0 \<or> int v \<in> set q'"
        "set q \<subseteq> set q'" "\<forall>w\<in>set todo. w \<in> set q'"
      by blast
    have "visit_row 0 (w # todo) (s, c, q) = Inr (s, c', q')" using step r(1) by simp
    moreover have "\<forall>x\<in>set (w # todo). x \<in> set q'" using inq r(7,8) by auto
    ultimately show ?thesis using r by blast
  next
    case False
    let ?c = "c[nat w := True]" and ?q = "q @ [w]"
    have step: "visit_neighbour 0 w (s, c, q) = Inr (s, ?c, ?q)"
      using gs gc False w Cons.prems(2) by (simp add: visit_neighbour_def bind_err_def np_set_def)
    have p2: "length ?c = n" using Cons.prems(2) by simp
    have p3: "?c ! 0" using Cons.prems(3) wn by simp
    have p4: "0 \<notin> set ?q" using Cons.prems(4) w by simp
    have p5: "\<forall>x\<in>set ?q. 0 \<le> x \<and> x < int n" using Cons.prems(5) w by simp
    have p6: "\<forall>v<n. ?c ! v \<longrightarrow> v = 0 \<or> int v \<in> set ?q"
    proof (intro allI impI)
      fix v assume v: "v < n" "?c ! v"
      show "v = 0 \<or> int v \<in> set ?q"
      proof (cases "v = nat w")
        case True
        then show ?thesis using wn by simp
      next
        case False
        then have "c ! v" using v by simp
        then show ?thesis using Cons.prems(6) v by auto
      qed
    qed
    from Cons.IH [OF rest p2 p3 p4 p5 p6] obtain c' q' where
      r: "visit_row 0 todo (s, ?c, ?q) = Inr (s, c', q')" "length c' = n" "c' ! 0" "0 \<notin> set q'"
        "\<forall>x\<in>set q'. 0 \<le> x \<and> x < int n" "\<forall>v<n. c' ! v \<longrightarrow> v = 0 \<or> int v \<in> set q'"
        "set ?q \<subseteq> set q'" "\<forall>w\<in>set todo. w \<in> set q'"
      by blast
    have "visit_row 0 (w # todo) (s, c, q) = Inr (s, c', q')" using step r(1) by simp
    moreover have "\<forall>x\<in>set (w # todo). x \<in> set q'" using r(7,8) by auto
    moreover have "set q \<subseteq> set q'" using r(7) by auto
    ultimately show ?thesis using r by blast
  qed
qed

lemma bfs_loop_inv:
  assumes g: "valid_neighbours vec" "symmetric_neighbours vec" "proper_colouring colour vec"
    and ne: "vec \<noteq> []"
    and inv: "label_inv (length vec) (side colour) (s, c, q)"
    and R: "\<forall>w\<in>set (row_list (vec ! 0)). s ! nat w \<noteq> 0 \<or> w \<in> set q"
  shows "\<exists>s'. bfs_loop vec (s, c, q) = Inr s' \<and> length s' = length vec \<and> s' ! 0 = 1 \<and>
           (\<forall>v<length vec. s' ! v = 0 \<or> s' ! v = side colour v) \<and>
           (\<forall>w\<in>set (row_list (vec ! 0)). s' ! nat w \<noteq> 0)"
  using inv R
proof (induction "n_unchecked c + length q" arbitrary: s c q rule: less_induct)
  case less
  let ?n = "length vec" and ?t = "side colour"
  show ?case
  proof (cases q)
    case Nil
    then show ?thesis using less.prems by (simp add: label_inv_iff)
  next
    case (Cons x q')
    have xq: "x \<in> set q" using Cons by simp
    from less.prems(1) xq have x: "0 \<le> x" "x < int ?n" "x \<noteq> 0"
      by (auto simp: label_inv_iff)
    define u where "u = nat x"
    have u: "u < ?n" "u \<noteq> 0" "int u = x" using x by (simp_all add: u_def)
    have row: "np_get vec x = Inr (vec ! u)" using x by (simp add: np_get_def u_def)
    have inv': "label_inv ?n ?t (s, c, q')"
      using less.prems(1) Cons by (simp add: label_inv_iff)
    have todo: "\<And>w. w \<in> set (row_list (vec ! u)) \<Longrightarrow>
        0 \<le> w \<and> w < int ?n \<and> ?t (nat w) = - ?t u \<and> nat w \<noteq> u"
      using neighbour_facts [OF g u(1)] by blast
    from visit_row_inv [OF inv' u(1,2) todo] obtain s' c' q'' where
      run: "visit_row (int u) (row_list (vec ! u)) (s, c, q') = Inr (s', c', q'')"
      and inv'': "label_inv ?n ?t (s', c', q'')" and sub: "set q' \<subseteq> set q''"
      and nz: "\<forall>v<?n. s ! v \<noteq> 0 \<longrightarrow> s' ! v \<noteq> 0"
      and lab: "0 \<in> set (row_list (vec ! u)) \<longrightarrow> s' ! u \<noteq> 0"
      by blast
    have run': "visit_row x (row_list (vec ! u)) (s, c, q') = Inr (s', c', q'')"
      using run u(3) by simp
    have dec: "n_unchecked c' + length q'' < n_unchecked c + length q"
      using visit_row_measure [OF run'] Cons by simp
    have zero: "0 < ?n" using ne by simp
    have R': "\<forall>w\<in>set (row_list (vec ! 0)). s' ! nat w \<noteq> 0 \<or> w \<in> set q''"
    proof
      fix w assume w: "w \<in> set (row_list (vec ! 0))"
      have wf: "0 \<le> w" "w < int ?n" "int 0 \<in> set (row_list (vec ! nat w))"
        using neighbour_facts [OF g zero w] by simp_all
      from less.prems(2) w have "s ! nat w \<noteq> 0 \<or> w \<in> set q" by blast
      then show "s' ! nat w \<noteq> 0 \<or> w \<in> set q''"
      proof
        assume "s ! nat w \<noteq> 0"
        then show ?thesis using nz wf by simp
      next
        assume "w \<in> set q"
        then have "w = x \<or> w \<in> set q'" using Cons by auto
        then show ?thesis
        proof
          assume "w = x"
          then have "0 \<in> set (row_list (vec ! u))" using wf(3) by (simp add: u_def)
          then have "s' ! u \<noteq> 0" using lab by blast
          then show ?thesis using \<open>w = x\<close> by (simp add: u_def)
        next
          assume "w \<in> set q'"
          then show ?thesis using sub by blast
        qed
      qed
    qed
    from less.hyps [OF dec inv'' R'] obtain sf where
      fin: "bfs_loop vec (s', c', q'') = Inr sf" "length sf = ?n" "sf ! 0 = 1"
        "\<forall>v<?n. sf ! v = 0 \<or> sf ! v = ?t v" "\<forall>w\<in>set (row_list (vec ! 0)). sf ! nat w \<noteq> 0"
      by blast
    have "bfs_loop vec (s, c, q) = Inr sf"
      using Cons row run' fin(1) by simp
    with fin show ?thesis by blast
  qed
qed

lemma second_run_fixed:
  assumes first: "set_sublattice l = Inr l1"
    and origin: "sublattice_l l1 ! 0 = 1"
    and nbrs: "list_all (\<lambda>v. np_get (sublattice_l l1) v = Inr (- 1)) (row_list (vecinos_l l1 ! 0))"
  shows "set_sublattice l1 = Inr l1"
proof -
  have f: "n_atoms l1 = n_atoms l" "vecinos_l l1 = vecinos_l l" "1 \<le> n_atoms l" "vecinos_l l \<noteq> []"
    using set_sublattice_fields [OF first] by simp_all
  obtain a b d where row: "vecinos_l l1 ! 0 = (a, b, d)" by (cases "vecinos_l l1 ! 0")
  have "np_get (sublattice_l l1) a = Inr (- 1)" using nbrs row by simp
  then have ne: "sublattice_l l1 \<noteq> []" by (rule np_get_nonempty)
  have seed: "np_set (sublattice_l l1) 0 1 = Inr (sublattice_l l1)"
    using ne origin by (rule seed_unchanged)
  have chk: "np_set (replicate (nat (n_atoms l1)) False) 0 True
             = Inr ((replicate (nat (n_atoms l1)) False)[0 := True])"
    using f by (simp add: np_set_def)
  have getrow: "np_get (vecinos_l l1) 0 = Inr (vecinos_l l1 ! 0)"
    using f by (simp add: np_get_def)
  have vr: "visit_row 0 (row_list (vecinos_l l1 ! 0))
              (sublattice_l l1, (replicate (nat (n_atoms l1)) False)[0 := True], [])
            = Inr (sublattice_l l1, (replicate (nat (n_atoms l1)) False)[0 := True], [])"
    using ne origin nbrs by (intro visit_row_coloured) (auto simp: list_all_iff)
  have "bfs_loop (vecinos_l l1) (sublattice_l l1, (replicate (nat (n_atoms l1)) False)[0 := True], [0])
        = Inr (sublattice_l l1)"
    by (simp add: getrow vr)
  then show ?thesis
    using f seed chk by (simp add: set_sublattice_def bind_err_def)
qed

text \<open>
  Claim C8, amended. \<open>set_sublattice\<close> does not reset the labels: a second run seeds
  atom \<open>0\<close> with \<open>+1\<close> again and then lets every labelled neighbour of atom \<open>0\<close> overwrite
  that label. Take a lattice as \<open>load_files\<close> leaves it (one row of neighbours per atom,
  every label \<open>0\<close>) whose neighbour indices are atom indices, whose neighbour array is
  symmetric (every atom is a neighbour of each of its neighbours) and whose atoms have a
  proper two-colouring. Then the first run completes, it leaves atom \<open>0\<close> with the label
  \<open>+1\<close> and each neighbour of atom \<open>0\<close> with the label \<open>-1\<close>, and a second run returns the
  lattice of the first run unchanged. The claim as stated, for every lattice, fails: see
  \<open>set_sublattice_twice_counterexample\<close>.
\<close>

theorem set_sublattice_idempotent:
  assumes ne: "vecinos_l l \<noteq> []"
    and n: "n_atoms l = int (length (vecinos_l l))"
    and fresh: "sublattice_l l = replicate (length (vecinos_l l)) 0"
    and valid: "valid_neighbours (vecinos_l l)"
    and sym: "symmetric_neighbours (vecinos_l l)"
    and col: "proper_colouring colour (vecinos_l l)"
  shows "\<exists>l1. set_sublattice l = Inr l1 \<and> set_sublattice l1 = Inr l1 \<and>
              sublattice_l l1 ! 0 = 1 \<and>
              list_all (\<lambda>v. sublattice_l l1 ! nat v = - 1) (row_list (vecinos_l l ! 0))"
proof -
  let ?vec = "vecinos_l l" and ?t = "side colour"
  let ?n = "length ?vec"
  let ?s0 = "(replicate ?n (0::int))[0 := 1]" and ?c0 = "(replicate ?n False)[0 := True]"
  have zero: "0 < ?n" using ne by simp
  have seed: "np_set (sublattice_l l) 0 1 = Inr ?s0"
    using zero fresh by (simp add: np_set_def)
  have chk: "np_set (replicate (nat (n_atoms l)) False) 0 True = Inr ?c0"
    using zero n by (simp add: np_set_def)
  have row0: "np_get ?vec 0 = Inr (?vec ! 0)" using zero by (simp add: np_get_def)
  have todo0: "\<And>w. w \<in> set (row_list (?vec ! 0)) \<Longrightarrow> 0 < w \<and> w < int ?n \<and> ?s0 ! nat w = 0"
  proof -
    fix w assume w: "w \<in> set (row_list (?vec ! 0))"
    have "0 \<le> w" "w < int ?n" "nat w \<noteq> 0"
      using neighbour_facts [OF valid sym col zero w] by simp_all
    then show "0 < w \<and> w < int ?n \<and> ?s0 ! nat w = 0" by auto
  qed
  have "\<exists>c' q'. visit_row 0 (row_list (?vec ! 0)) (?s0, ?c0, []) = Inr (?s0, c', q') \<and>
           length c' = ?n \<and> c' ! 0 \<and> 0 \<notin> set q' \<and> (\<forall>x\<in>set q'. 0 \<le> x \<and> x < int ?n) \<and>
           (\<forall>v<?n. c' ! v \<longrightarrow> v = 0 \<or> int v \<in> set q') \<and> set [] \<subseteq> set q' \<and>
           (\<forall>w\<in>set (row_list (?vec ! 0)). w \<in> set q')"
  proof (rule first_row)
    show "\<And>w. w \<in> set (row_list (?vec ! 0)) \<Longrightarrow> 0 < w \<and> w < int ?n \<and> ?s0 ! nat w = 0"
      by (rule todo0)
    show "length ?s0 = ?n" "length ?c0 = ?n" by simp_all
    show "?c0 ! 0" using zero by simp
    show "0 \<notin> set ([] :: int list)" by simp
    show "\<forall>x\<in>set ([] :: int list). 0 \<le> x \<and> x < int ?n" by simp
    show "\<forall>v<?n. ?c0 ! v \<longrightarrow> v = 0 \<or> int v \<in> set []"
    proof (intro allI impI)
      fix v assume "v < ?n" "?c0 ! v"
      then show "v = 0 \<or> int v \<in> set []" by (cases "v = 0") auto
    qed
  qed
  then obtain c1 q1 where
    r1: "visit_row 0 (row_list (?vec ! 0)) (?s0, ?c0, []) = Inr (?s0, c1, q1)"
    and c1: "length c1 = ?n" "c1 ! 0" and q1: "0 \<notin> set q1" "\<forall>x\<in>set q1. 0 \<le> x \<and> x < int ?n"
    and inq: "\<forall>w\<in>set (row_list (?vec ! 0)). w \<in> set q1"
    by blast
  have A0: "\<forall>v<?n. ?s0 ! v = 0 \<or> ?s0 ! v = ?t v"
  proof (intro allI impI)
    fix v assume "v < ?n"
    then show "?s0 ! v = 0 \<or> ?s0 ! v = ?t v" by (cases "v = 0") (auto simp: side_def)
  qed
  have inv: "label_inv ?n ?t (?s0, c1, q1)"
    using c1 q1 A0 zero by (simp add: label_inv_iff)
  have R: "\<forall>w\<in>set (row_list (?vec ! 0)). ?s0 ! nat w \<noteq> 0 \<or> w \<in> set q1"
    using inq by blast
  from bfs_loop_inv [OF valid sym col ne inv R] obtain sf where
    fin: "bfs_loop ?vec (?s0, c1, q1) = Inr sf" "length sf = ?n" "sf ! 0 = 1"
      "\<forall>v<?n. sf ! v = 0 \<or> sf ! v = ?t v" "\<forall>w\<in>set (row_list (?vec ! 0)). sf ! nat w \<noteq> 0"
    by blast
  have loop: "bfs_loop ?vec (?s0, ?c0, [0]) = Inr sf"
    using row0 r1 fin(1) by simp
  let ?l1 = "l\<lparr> sublattice_l := sf \<rparr>"
  have first: "set_sublattice l = Inr ?l1"
    using n seed chk loop by (simp add: set_sublattice_def bind_err_def)
  have lab: "\<And>w. w \<in> set (row_list (?vec ! 0)) \<Longrightarrow>
               0 \<le> w \<and> w < int ?n \<and> sf ! nat w = - 1"
  proof -
    fix w assume w: "w \<in> set (row_list (?vec ! 0))"
    have wf: "0 \<le> w" "w < int ?n" "?t (nat w) = - ?t 0"
      using neighbour_facts [OF valid sym col zero w] by simp_all
    have "sf ! nat w \<noteq> 0" using fin(5) w by blast
    moreover have "nat w < ?n" using wf by simp
    ultimately have "sf ! nat w = ?t (nat w)" using fin(4) by blast
    then show "0 \<le> w \<and> w < int ?n \<and> sf ! nat w = - 1" using wf by (simp add: side_def)
  qed
  have nb: "list_all (\<lambda>v. np_get (sublattice_l ?l1) v = Inr (- 1)) (row_list (vecinos_l ?l1 ! 0))"
    unfolding list_all_iff
  proof
    fix w assume "w \<in> set (row_list (vecinos_l ?l1 ! 0))"
    then have "w \<in> set (row_list (?vec ! 0))" by simp
    from lab [OF this] show "np_get (sublattice_l ?l1) w = Inr (- 1)"
      using fin(2) by (simp add: np_get_def)
  qed
  have second: "set_sublattice ?l1 = Inr ?l1"
    using first _ nb by (rule second_run_fixed) (simp add: fin(3))
  have "list_all (\<lambda>v. sublattice_l ?l1 ! nat v = - 1) (row_list (?vec ! 0))"
    using lab by (simp add: list_all_iff)
  with first second fin(3) show ?thesis by auto
qed

theorem set_sublattice_idempotent_witness:
  "vecinos_l (two_class_lattice [0, 0, 0, 0, 0, 0]) \<noteq> [] \<and>
   n_atoms (two_class_lattice [0, 0, 0, 0, 0, 0]) = 6 \<and>
   sublattice_l (two_class_lattice [0, 0, 0, 0, 0, 0]) = replicate 6 0 \<and>
   valid_neighbours (vecinos_l (two_class_lattice [0, 0, 0, 0, 0, 0])) \<and>
   symmetric_neighbours (vecinos_l (two_class_lattice [0, 0, 0, 0, 0, 0])) \<and>
   proper_colouring even (vecinos_l (two_class_lattice [0, 0, 0, 0, 0, 0])) \<and>
   set_sublattice (two_class_lattice [0, 0, 0, 0, 0, 0]) =
     Inr (two_class_lattice [1, - 1, 1, - 1, 1, - 1]) \<and>
   set_sublattice (two_class_lattice [1, - 1, 1, - 1, 1, - 1]) =
     Inr (two_class_lattice [1, - 1, 1, - 1, 1, - 1])"
proof -
  let ?l = "two_class_lattice [0, 0, 0, 0, 0, 0]"
  have six: "[0..<6] = [0, 1, 2, 3, 4, 5]" by (simp add: upt_conv_Cons)
  have rep: "replicate 6 (0::int) = [0, 0, 0, 0, 0, 0]" by (simp add: numeral_eq_Suc)
  have h: "vecinos_l ?l \<noteq> []" "n_atoms ?l = int (length (vecinos_l ?l))"
    "sublattice_l ?l = replicate (length (vecinos_l ?l)) 0"
    "valid_neighbours (vecinos_l ?l)" "symmetric_neighbours (vecinos_l ?l)"
    "proper_colouring even (vecinos_l ?l)"
    by (simp_all add: two_class_lattice_def valid_neighbours_def row_in_range_def
        symmetric_neighbours_def proper_colouring_def six rep)
  have first: "set_sublattice ?l = Inr (two_class_lattice [1, - 1, 1, - 1, 1, - 1])"
    by (simp add: set_sublattice_def two_class_lattice_def visit_neighbour_def np_get_def
        np_set_def bind_err_def)
  from set_sublattice_idempotent [OF h] obtain l1 where
    "set_sublattice ?l = Inr l1" "set_sublattice l1 = Inr l1" by blast
  with first have "set_sublattice (two_class_lattice [1, - 1, 1, - 1, 1, - 1]) =
      Inr (two_class_lattice [1, - 1, 1, - 1, 1, - 1])" by simp
  with first h show ?thesis by (simp add: two_class_lattice_def rep)
qed

text \<open>
  The claim C8 as stated, on the triangle lattice, whose neighbour array is symmetric
  but whose three atoms have no proper two-colouring: the first run gives the labels
  \<open>[1, -1, 1]\<close>, the second run gives \<open>[-1, -1, 1]\<close>.
\<close>

theorem set_sublattice_twice_counterexample:
  "set_sublattice (triangle_lattice [0, 0, 0]) = Inr (triangle_lattice [1, - 1, 1]) \<and>
   set_sublattice (triangle_lattice [1, - 1, 1]) = Inr (triangle_lattice [- 1, - 1, 1]) \<and>
   sublattice_l (triangle_lattice [- 1, - 1, 1]) \<noteq> sublattice_l (triangle_lattice [1, - 1, 1])"
  by (simp add: set_sublattice_def triangle_lattice_def visit_neighbour_def np_get_def np_set_def bind_err_def)

text \<open>
  A proper two-colouring alone is not enough. On the one-way cycle of four atoms the
  neighbour indices are atom indices and the even and odd atoms form a proper
  two-colouring, but the neighbour array is not symmetric: the first run leaves atoms
  \<open>1\<close> and \<open>2\<close> without a label and gives \<open>[1, 0, 0, -1]\<close>, the second run gives
  \<open>[1, 0, 1, -1]\<close>.
\<close>

lemma one_way_cycle_runs:
  "valid_neighbours (vecinos_l (one_way_cycle [0, 0, 0, 0])) \<and>
   proper_colouring even (vecinos_l (one_way_cycle [0, 0, 0, 0])) \<and>
   \<not> symmetric_neighbours (vecinos_l (one_way_cycle [0, 0, 0, 0])) \<and>
   set_sublattice (one_way_cycle [0, 0, 0, 0]) = Inr (one_way_cycle [1, 0, 0, - 1]) \<and>
   set_sublattice (one_way_cycle [1, 0, 0, - 1]) = Inr (one_way_cycle [1, 0, 1, - 1])"
proof -
  have four: "[0..<4] = [0, 1, 2, 3]" by (simp add: upt_conv_Cons)
  show ?thesis
    by (simp add: set_sublattice_def one_way_cycle_def visit_neighbour_def np_get_def
        np_set_def bind_err_def valid_neighbours_def row_in_range_def
        symmetric_neighbours_def proper_colouring_def four)
qed

text \<open>The two atoms that are each other's only neighbour get the labels \<open>[1, -1]\<close>,
  and a second run keeps them.\<close>

lemma pair_lattice_runs:
  "set_sublattice (pair_lattice [0, 0]) = Inr (pair_lattice [1, - 1]) \<and>
   set_sublattice (pair_lattice [1, - 1]) = Inr (pair_lattice [1, - 1])"
proof -
  have first: "set_sublattice (pair_lattice [0, 0]) = Inr (pair_lattice [1, - 1])"
    by (simp add: set_sublattice_def pair_lattice_def visit_neighbour_def np_get_def np_set_def bind_err_def)
  have "set_sublattice (pair_lattice [1, - 1]) = Inr (pair_lattice [1, - 1])"
    by (rule second_run_fixed [OF first]) (simp_all add: pair_lattice_def np_get_def)
  with first show ?thesis by simp
qed

section \<open>Path resolution\<close>

lemma nat_digits_numeral:
  "nat_digits (numeral k) =
     (if numeral k < (10::nat) then [digit_char (numeral k)]
      else nat_digits (numeral k div 10) @ [digit_char (numeral k mod 10)])"
  by (rule nat_digits.simps)

lemma nat_digits_0: "nat_digits 0 = ''0''"
  by (simp add: nat_digits.simps [of 0] digit_char_def)

lemma nat_digits_1: "nat_digits (Suc 0) = ''1''"
  by (simp add: nat_digits.simps [of "Suc 0"] digit_char_def)

lemmas nat_digits_eval = nat_digits_numeral nat_digits_0 nat_digits_1 digit_char_def zero_pad_def

lemma fixed_precision_3f: "fixed_precision ''{:.3f}'' = Some 3"
  by (simp add: fixed_precision_def digit_value_def)

lemma format_fixed_example1: "format_fixed 3 (6 / 5) = ''1.200''"
  by (simp add: format_fixed_def Let_def nat_digits_eval)

lemma format_fixed_example2: "format_fixed 3 (- (1 / 2)) = ''-0.500''"
  by (simp add: format_fixed_def Let_def nat_digits_eval)

lemmas example_path_eval =
  get_file_path_def Let_def example_paths_def var_to_str_def py_format_def
  fixed_precision_3f format_fixed_example1 format_fixed_example2

text \<open>
  Claim C5, amended. \<open>get_file_path\<close> composes the path as
  \<open><dir_prefix><folder>/<file_prefix><tag1><formatted var1><tag2><formatted var2>\<close>: the
  folder argument and a slash stand between the directory prefix and the file name. With
  the attributes of the example and the empty folder that the sweep passes, the path is
  \<open>x//out_DM1.200_K-0.500\<close>. (The numbers \<open>1.2\<close> and \<open>-0.5\<close> are the reals here; the
  float nearest to \<open>1.2\<close> formats to the same three decimals.)
\<close>

theorem get_file_path_composition:
  "get_file_path pm folder var1 var2 =
     dir_prefix pm @ folder @ ''/'' @ name_prefix pm @ var1_name pm @ var_to_str pm var1 @
     var2_name pm @ var_to_str pm var2 \<and>
   get_file_path example_paths '''' 1.2 (- 0.5) = ''x//out_DM1.200_K-0.500''"
  by (simp add: example_path_eval)

text \<open>
  The claim C5 as stated: the resolved path of the example is not
  \<open>x/out_DM1.200_K-0.500\<close>, and it is not the composition
  \<open><dir><prefix><tag1><formatted var1><tag2><formatted var2>\<close>.
\<close>

theorem get_file_path_counterexample:
  "get_file_path example_paths '''' 1.2 (- 0.5) \<noteq> ''x/out_DM1.200_K-0.500'' \<and>
   get_file_path example_paths '''' 1.2 (- 0.5) \<noteq> spec_file_path example_paths 1.2 (- 0.5)"
  by (simp add: example_path_eval spec_file_path_def)

text \<open>No folder argument gives the path of the specification's example.\<close>

lemma example_path_any_folder:
  "get_file_path example_paths folder 1.2 (- 0.5) \<noteq> ''x/out_DM1.200_K-0.500''"
proof
  assume "get_file_path example_paths folder 1.2 (- 0.5) = ''x/out_DM1.200_K-0.500''"
  then have "length (get_file_path example_paths folder 1.2 (- 0.5)) = length ''x/out_DM1.200_K-0.500''"
    by (rule arg_cong)
  then show False
    by (simp add: example_path_eval)
qed

section \<open>The sweep\<close>

lemma set_sublattice_keeps:
  assumes "set_sublattice l = Inr l1"
  shows "spins_l l1 = spins_l l \<and> position l1 = position l"
  using assms by (auto simp: set_sublattice_def bind_err_def split: if_splits sum.splits)

lemma bind_err_InrE:
  assumes "bind_err m f = Inr y"
  obtains x where "m = Inr x" and "f x = Inr y"
  using assms by (cases m) (simp_all add: bind_err_def)

lemma set_values_bound:
  "set_values c (n_atoms l) (vecinos_l l) (sublattice_l l) (position l) = bound_context l"
  by (simp add: set_values_def bound_context_def)

lemma store_color_result:
  assumes "store_color j k col dm = Inr dm1"
  shows "\<exists>data'. dm1 = dm\<lparr> data := data' \<rparr>"
  using assms by (auto simp: store_color_def bind_err_def split: sum.splits)

lemma store_color_criteria:
  assumes "store_color j k col dm = Inr dm1"
  shows "store_color j k col (dm\<lparr> criteria := c \<rparr>) = Inr (dm1\<lparr> criteria := c \<rparr>)"
  using assms by (auto simp: store_color_def bind_err_def split: sum.splits)

lemma cell_unbound:
  assumes unbound: "len (criteria dm) = 0"
    and run: "set_data_cell fs f jv kv dm = Inr dm1"
  shows "\<exists>lat lat'.
           load_files fs lattice_init (structure_pm (path_manager dm)) (spin_file_of dm (jv, kv)) = Inr lat \<and>
           set_sublattice lat = Inr lat' \<and>
           criteria dm1 = bound_context lat' \<and>
           classify_cell fs f (bound_context lat') (jv, kv) dm = Inr (dm1\<lparr> criteria := criteria dm \<rparr>)"
proof -
  obtain j var1 where jv: "jv = (j, var1)" by (cases jv)
  obtain k var2 where kv: "kv = (k, var2)" by (cases kv)
  have fl: "spin_file_of dm ((j, var1), (k, var2)) = get_file_path (path_manager dm) '''' var1 var2 @ ''_spin''"
    by (simp add: spin_file_of_def)
  from run have "bind_err (load_files fs lattice_init (structure_pm (path_manager dm)) (spin_file_of dm (jv, kv)))
      (\<lambda>lattice. bind_err (bind_err (set_sublattice lattice) (\<lambda>lattice'.
                         Inr (lattice', dm\<lparr> criteria := bound_context lattice' \<rparr>)))
         (\<lambda>(lattice', dm'). bind_err (f (criteria dm') (spins_l lattice')) (\<lambda>col.
             store_color j k col dm'))) = Inr dm1"
    using unbound by (simp add: set_data_cell_def jv kv fl Let_def set_values_bound)
  then obtain lat where
    load: "load_files fs lattice_init (structure_pm (path_manager dm)) (spin_file_of dm (jv, kv)) = Inr lat"
    and r1: "bind_err (bind_err (set_sublattice lat) (\<lambda>lattice'.
                         Inr (lattice', dm\<lparr> criteria := bound_context lattice' \<rparr>)))
         (\<lambda>(lattice', dm'). bind_err (f (criteria dm') (spins_l lattice')) (\<lambda>col.
             store_color j k col dm')) = Inr dm1"
    by (rule bind_err_InrE)
  from r1 obtain p where
    r2: "bind_err (set_sublattice lat) (\<lambda>lattice'.
                         Inr (lattice', dm\<lparr> criteria := bound_context lattice' \<rparr>)) = Inr p"
    and r3: "(case p of (lattice', dm') \<Rightarrow> bind_err (f (criteria dm') (spins_l lattice')) (\<lambda>col.
             store_color j k col dm')) = Inr dm1"
    by (rule bind_err_InrE)
  from r2 obtain lat' where lab: "set_sublattice lat = Inr lat'"
    and p: "Inr (lat', dm\<lparr> criteria := bound_context lat' \<rparr>) = (Inr p :: error + (lattice \<times> data_manager))"
    by (rule bind_err_InrE)
  from p r3 have "bind_err (f (bound_context lat') (spins_l lat')) (\<lambda>col.
             store_color j k col (dm\<lparr> criteria := bound_context lat' \<rparr>)) = Inr dm1"
    by auto
  then obtain col where c: "f (bound_context lat') (spins_l lat') = Inr col"
    and st: "store_color j k col (dm\<lparr> criteria := bound_context lat' \<rparr>) = Inr dm1"
    by (rule bind_err_InrE)
  have sp: "spins_l lat' = spins_l lat" using set_sublattice_keeps [OF lab] by simp
  from store_color_result [OF st] have crit: "criteria dm1 = bound_context lat'" by auto
  have "store_color j k col dm = Inr (dm1\<lparr> criteria := criteria dm \<rparr>)"
    using store_color_criteria [OF st, of "criteria dm"] by simp
  then have "classify_cell fs f (bound_context lat') (jv, kv) dm = Inr (dm1\<lparr> criteria := criteria dm \<rparr>)"
    using load c sp by (simp add: classify_cell_def jv kv bind_err_def)
  with load lab crit show ?thesis by blast
qed

lemma cell_bound:
  assumes bound: "len (criteria dm) \<noteq> 0"
    and run: "set_data_cell fs f jv kv dm = Inr dm1"
  shows "criteria dm1 = criteria dm \<and>
         classify_cell fs f (criteria dm) (jv, kv) (dm\<lparr> criteria := c0 \<rparr>) = Inr (dm1\<lparr> criteria := c0 \<rparr>)"
proof -
  obtain j var1 where jv: "jv = (j, var1)" by (cases jv)
  obtain k var2 where kv: "kv = (k, var2)" by (cases kv)
  have fl: "spin_file_of dm ((j, var1), (k, var2)) = get_file_path (path_manager dm) '''' var1 var2 @ ''_spin''"
    by (simp add: spin_file_of_def)
  from run have "bind_err (load_files fs lattice_init (structure_pm (path_manager dm)) (spin_file_of dm (jv, kv)))
      (\<lambda>lattice. bind_err (f (criteria dm) (spins_l lattice)) (\<lambda>col. store_color j k col dm)) = Inr dm1"
    using bound by (simp add: set_data_cell_def jv kv fl Let_def bind_err_def)
  then obtain lat where
    load: "load_files fs lattice_init (structure_pm (path_manager dm)) (spin_file_of dm (jv, kv)) = Inr lat"
    and r1: "bind_err (f (criteria dm) (spins_l lat)) (\<lambda>col. store_color j k col dm) = Inr dm1"
    by (rule bind_err_InrE)
  from r1 obtain col where c: "f (criteria dm) (spins_l lat) = Inr col"
    and st: "store_color j k col dm = Inr dm1"
    by (rule bind_err_InrE)
  from store_color_result [OF st] have crit: "criteria dm1 = criteria dm" by auto
  have sf: "spin_file_of (dm\<lparr> criteria := c0 \<rparr>) = spin_file_of dm"
    by (rule ext) (simp add: spin_file_of_def)
  have "classify_cell fs f (criteria dm) (jv, kv) (dm\<lparr> criteria := c0 \<rparr>) = Inr (dm1\<lparr> criteria := c0 \<rparr>)"
    using load c store_color_criteria [OF st, of c0]
    by (simp add: classify_cell_def sf jv kv bind_err_def)
  with crit show ?thesis by simp
qed

lemma cell_keeps_grid:
  assumes "set_data_cell fs f jv kv dm = Inr dm1"
  shows "path_manager dm1 = path_manager dm \<and> var1_list dm1 = var1_list dm \<and>
         var2_list dm1 = var2_list dm"
proof -
  have "\<exists>ctx. classify_cell fs f ctx (jv, kv) dm = Inr (dm1\<lparr> criteria := criteria dm \<rparr>)"
  proof (cases "len (criteria dm) = 0")
    case True
    from cell_unbound [OF True assms] show ?thesis by blast
  next
    case False
    from cell_bound [OF False assms, of "criteria dm"] show ?thesis by auto
  qed
  then obtain ctx where "classify_cell fs f ctx (jv, kv) dm = Inr (dm1\<lparr> criteria := criteria dm \<rparr>)"
    by blast
  then obtain col where "store_color (fst jv) (fst kv) col dm = Inr (dm1\<lparr> criteria := criteria dm \<rparr>)"
    unfolding classify_cell_def by (auto elim!: bind_err_InrE)
  from store_color_result [OF this] obtain data' where
    e: "dm1\<lparr> criteria := criteria dm \<rparr> = dm\<lparr> data := data' \<rparr>" by blast
  have "path_manager (dm1\<lparr> criteria := criteria dm \<rparr>) = path_manager (dm\<lparr> data := data' \<rparr>)"
    "var1_list (dm1\<lparr> criteria := criteria dm \<rparr>) = var1_list (dm\<lparr> data := data' \<rparr>)"
    "var2_list (dm1\<lparr> criteria := criteria dm \<rparr>) = var2_list (dm\<lparr> data := data' \<rparr>)"
    using e by simp_all
  then show ?thesis by simp
qed

lemma bind_err_assoc:
  "bind_err (bind_err m g) h = bind_err m (\<lambda>x. bind_err (g x) h)"
  by (cases m) (simp_all add: bind_err_def)

lemma bind_err_cong_Inr:
  assumes "\<And>x. m = Inr x \<Longrightarrow> g x = h x"
  shows "bind_err m g = bind_err m h"
  using assms by (cases m) (simp_all add: bind_err_def)

lemma run_cells_append:
  "run_cells fs f (xs @ ys) dm = bind_err (run_cells fs f xs dm) (run_cells fs f ys)"
proof (induction xs arbitrary: dm)
  case Nil
  then show ?case by (simp add: bind_err_def)
next
  case (Cons c xs)
  obtain jv kv where c: "c = (jv, kv)" by (cases c)
  have "run_cells fs f (xs @ ys) = (\<lambda>x. bind_err (run_cells fs f xs x) (run_cells fs f ys))"
    by (rule ext) (rule Cons.IH)
  then show ?case
    unfolding c by (simp add: bind_err_assoc)
qed

lemma set_data_row_cells:
  "set_data_row fs f jv kvs dm = run_cells fs f (map (Pair jv) kvs) dm"
proof (induction kvs arbitrary: dm)
  case Nil
  then show ?case by simp
next
  case (Cons kv kvs)
  have "set_data_row fs f jv kvs = run_cells fs f (map (Pair jv) kvs)"
    by (rule ext) (rule Cons.IH)
  then show ?case by simp
qed

lemma run_cells_keeps_grid:
  assumes "run_cells fs f cells dm = Inr dm'"
  shows "path_manager dm' = path_manager dm \<and> var1_list dm' = var1_list dm \<and>
         var2_list dm' = var2_list dm"
  using assms
proof (induction cells arbitrary: dm)
  case Nil
  then show ?case by simp
next
  case (Cons c cells)
  obtain jv kv where c: "c = (jv, kv)" by (cases c)
  from Cons.prems obtain dm1 where
    one: "set_data_cell fs f jv kv dm = Inr dm1" and more: "run_cells fs f cells dm1 = Inr dm'"
    unfolding c by (auto elim: bind_err_InrE)
  from cell_keeps_grid [OF one] Cons.IH [OF more] show ?case by simp
qed

lemma set_data_rows_cells:
  "set_data_rows fs f jvs dm =
     run_cells fs f (concat (map (\<lambda>jv. map (Pair jv) (enumerate_py (var2_list dm))) jvs)) dm"
proof (induction jvs arbitrary: dm)
  case Nil
  then show ?case by simp
next
  case (Cons jv jvs)
  let ?row = "map (Pair jv) (enumerate_py (var2_list dm))"
  have "bind_err (run_cells fs f ?row dm) (set_data_rows fs f jvs)
        = bind_err (run_cells fs f ?row dm)
            (run_cells fs f (concat (map (\<lambda>jv. map (Pair jv) (enumerate_py (var2_list dm))) jvs)))"
  proof (rule bind_err_cong_Inr)
    fix dm1 assume "run_cells fs f ?row dm = Inr dm1"
    then have "var2_list dm1 = var2_list dm" using run_cells_keeps_grid by blast
    then show "set_data_rows fs f jvs dm1
       = run_cells fs f (concat (map (\<lambda>jv. map (Pair jv) (enumerate_py (var2_list dm))) jvs)) dm1"
      using Cons.IH [of dm1] by simp
  qed
  then show ?case by (simp add: set_data_row_cells run_cells_append)
qed

lemma set_data_cells: "set_data fs f dm = run_cells fs f (grid_cells dm) dm"
  by (simp add: set_data_def grid_cells_def set_data_rows_cells)

lemma cell_binds:
  assumes "set_data_cell fs f jv kv dm = Inr dm1"
  shows "1 \<le> len (criteria dm1) \<or> (len (criteria dm) \<noteq> 0 \<and> criteria dm1 = criteria dm)"
proof (cases "len (criteria dm) = 0")
  case True
  from cell_unbound [OF True assms] obtain lat lat' where
    "set_sublattice lat = Inr lat'" "criteria dm1 = bound_context lat'" by blast
  then show ?thesis using set_sublattice_fields [of lat lat'] by (simp add: bound_context_def)
next
  case False
  then show ?thesis using cell_bound [OF False assms] by simp
qed

lemma cells_bound:
  assumes "len (criteria dm) \<noteq> 0" and "run_cells fs f cells dm = Inr dm'"
  shows "criteria dm' = criteria dm \<and>
         classify_cells fs f (criteria dm) cells (dm\<lparr> criteria := c0 \<rparr>) = Inr (dm'\<lparr> criteria := c0 \<rparr>)"
  using assms
proof (induction cells arbitrary: dm)
  case Nil
  then show ?case by simp
next
  case (Cons c cells)
  obtain jv kv where c: "c = (jv, kv)" by (cases c)
  from Cons.prems(2) obtain dm1 where
    one: "set_data_cell fs f jv kv dm = Inr dm1" and more: "run_cells fs f cells dm1 = Inr dm'"
    unfolding c by (auto elim: bind_err_InrE)
  from cell_bound [OF Cons.prems(1) one, of c0] have
    same: "criteria dm1 = criteria dm"
    and cl: "classify_cell fs f (criteria dm) (jv, kv) (dm\<lparr> criteria := c0 \<rparr>) = Inr (dm1\<lparr> criteria := c0 \<rparr>)"
    by simp_all
  have "len (criteria dm1) \<noteq> 0" using same Cons.prems(1) by simp
  from Cons.IH [OF this more] same have
    "criteria dm' = criteria dm"
    "classify_cells fs f (criteria dm) cells (dm1\<lparr> criteria := c0 \<rparr>) = Inr (dm'\<lparr> criteria := c0 \<rparr>)"
    by simp_all
  then show ?case using cl by (simp add: c bind_err_def)
qed

text \<open>
  Claim C6. A sweep that starts with an unbound classifier (\<open>len = 0\<close>) and completes
  binds the context \<open>(n_atoms, vecinos, sublattice, position)\<close> of the labelled lattice
  of its first cell, and never again: after the first cell and any further cells the
  manager holds that same context, and the whole sweep stores exactly the colours of the
  sweep that classifies every cell's own spin array with this one fixed context.
\<close>

theorem context_bound_once:
  assumes fresh: "len (criteria dm) = 0"
    and run: "set_data fs function dm = Inr dm'"
    and first: "grid_cells dm = cell # rest"
  shows "\<exists>lat lat'.
           load_files fs lattice_init (structure_pm (path_manager dm)) (spin_file_of dm cell) = Inr lat \<and>
           set_sublattice lat = Inr lat' \<and>
           criteria dm' = bound_context lat' \<and>
           (\<forall>pre post dm1. rest = pre @ post \<longrightarrow>
               run_cells fs function (cell # pre) dm = Inr dm1 \<longrightarrow>
               criteria dm1 = bound_context lat') \<and>
           classify_cells fs function (bound_context lat') (grid_cells dm) dm =
             Inr (dm'\<lparr> criteria := criteria dm \<rparr>)"
proof -
  obtain jv kv where c: "cell = (jv, kv)" by (cases cell)
  from run first have "run_cells fs function ((jv, kv) # rest) dm = Inr dm'"
    by (simp add: set_data_cells c)
  then obtain dm1 where
    one: "set_data_cell fs function jv kv dm = Inr dm1"
    and more: "run_cells fs function rest dm1 = Inr dm'"
    by (auto elim: bind_err_InrE)
  from cell_unbound [OF fresh one] obtain lat lat' where
    load: "load_files fs lattice_init (structure_pm (path_manager dm)) (spin_file_of dm (jv, kv)) = Inr lat"
    and lab: "set_sublattice lat = Inr lat'"
    and ctx: "criteria dm1 = bound_context lat'"
    and cl: "classify_cell fs function (bound_context lat') (jv, kv) dm = Inr (dm1\<lparr> criteria := criteria dm \<rparr>)"
    by blast
  have bound: "len (criteria dm1) \<noteq> 0"
    using ctx set_sublattice_fields [OF lab] by (simp add: bound_context_def)
  from cells_bound [OF bound more, of "criteria dm"] ctx have
    fin: "criteria dm' = bound_context lat'"
    and cls: "classify_cells fs function (bound_context lat') rest (dm1\<lparr> criteria := criteria dm \<rparr>)
              = Inr (dm'\<lparr> criteria := criteria dm \<rparr>)"
    by simp_all
  have all: "classify_cells fs function (bound_context lat') (grid_cells dm) dm =
             Inr (dm'\<lparr> criteria := criteria dm \<rparr>)"
    using cl cls by (simp add: first c bind_err_def)
  have pre: "\<forall>pre post dm2. rest = pre @ post \<longrightarrow>
               run_cells fs function (cell # pre) dm = Inr dm2 \<longrightarrow>
               criteria dm2 = bound_context lat'"
  proof (intro allI impI)
    fix pre post dm2
    assume "run_cells fs function (cell # pre) dm = Inr dm2"
    then have "run_cells fs function pre dm1 = Inr dm2"
      using one by (simp add: c bind_err_def)
    from cells_bound [OF bound this, of "criteria dm"] ctx
    show "criteria dm2 = bound_context lat'" by simp
  qed
  from load lab fin pre all show ?thesis unfolding c by blast
qed

subsection \<open>The small sweep, evaluated\<close>

lemma replicate_2: "replicate 2 x = [x, x]"
  by (simp add: numeral_2_eq_2)

lemma format_fixed_0: "format_fixed 3 0 = ''0.000''"
  by (simp add: format_fixed_def Let_def nat_digits_eval replicate_2)

lemma format_fixed_1: "format_fixed 3 1 = ''1.000''"
  by (simp add: format_fixed_def Let_def nat_digits_eval replicate_2)

lemma example_grid:
  "grid_cells example_manager = [((0, 0), (0, 0)), ((0, 0), (1, 1))]"
  by (simp add: grid_cells_def example_manager_def data_manager_init_def enumerate_py_def upt_conv_Cons)

lemma example_file_0:
  "spin_file_of example_manager ((0, 0), (0, 0)) = ''x//out_DM0.000_K0.000_spin''"
  by (simp add: spin_file_of_def example_manager_def data_manager_init_def get_file_path_def
      example_paths_def var_to_str_def py_format_def fixed_precision_3f format_fixed_0 Let_def)

lemma example_file_1:
  "spin_file_of example_manager ((0, 0), (1, 1)) = ''x//out_DM0.000_K1.000_spin''"
  by (simp add: spin_file_of_def example_manager_def data_manager_init_def get_file_path_def
      example_paths_def var_to_str_def py_format_def fixed_precision_3f format_fixed_0 format_fixed_1 Let_def)

lemma example_load_0:
  "load_files example_files lattice_init ''structure'' ''x//out_DM0.000_K0.000_spin''
   = Inr \<lparr> spins_l = [(0, 0, 1), (0, 0, 1)], position = [(0, 0, 0), (1, 0, 0)],
            vecinos_l = [(1, 1, 1), (0, 0, 0)], n_atoms = 2, dimensions = (1, 0, 0),
            size_l = 1, sublattice_l = [0, 0] \<rparr>"
  by (simp add: load_files_def example_files_def example_structure_def fill_rows_def extent_def
      bind_err_def Let_def replicate_2)


lemma example_load_1:
  "load_files example_files lattice_init ''structure'' ''x//out_DM0.000_K1.000_spin''
   = Inr \<lparr> spins_l = [(0, 0, 1), (0, 0, - 1)], position = [(0, 0, 0), (1, 0, 0)],
            vecinos_l = [(1, 1, 1), (0, 0, 0)], n_atoms = 2, dimensions = (1, 0, 0),
            size_l = 1, sublattice_l = [0, 0] \<rparr>"
  by (simp add: load_files_def example_files_def example_structure_def fill_rows_def extent_def
      bind_err_def Let_def replicate_2)

lemma example_label:
  "set_sublattice \<lparr> spins_l = [(0, 0, 1), (0, 0, 1)], position = [(0, 0, 0), (1, 0, 0)],
            vecinos_l = [(1, 1, 1), (0, 0, 0)], n_atoms = 2, dimensions = (1, 0, 0),
            size_l = 1, sublattice_l = [0, 0] \<rparr>
   = Inr \<lparr> spins_l = [(0, 0, 1), (0, 0, 1)], position = [(0, 0, 0), (1, 0, 0)],
            vecinos_l = [(1, 1, 1), (0, 0, 0)], n_atoms = 2, dimensions = (1, 0, 0),
            size_l = 1, sublattice_l = [1, - 1] \<rparr>"
  by (simp add: set_sublattice_def visit_neighbour_def np_get_def np_set_def bind_err_def replicate_2)

lemmas predicate_eval =
  is_ferro_z_aligned_def is_ferro_xy_aligned_def is_antiferro_z_aligned_def
  is_antiferro_xy_aligned_def spins_z_def spins_component_def spins_weighted_def
  range_py_def np_get_def bind_err_def upt_conv_Cons Let_def

lemma example_conical_0: "is_conical example_context [(0, 0, 1), (0, 0, 1)] = Inr (False, False)"
  by (simp add: is_conical_def example_context_def enumerate_zip_def conical_pair_def norm3_def
      np_get_def bind_err_def upt_conv_Cons Let_def)

lemma example_conical_1: "is_conical example_context [(0, 0, 1), (0, 0, - 1)] = Inr (False, False)"
  by (simp add: is_conical_def example_context_def enumerate_zip_def conical_pair_def norm3_def
      np_get_def bind_err_def upt_conv_Cons Let_def)

lemma example_color_0:
  "data_ferro_spiral_skyrmions example_context [(0, 0, 1), (0, 0, 1)] = Inr (rgb 255 231 113)"
  by (simp add: data_ferro_spiral_skyrmions_def example_conical_0)
     (simp add: example_context_def predicate_eval)

lemma example_color_1:
  "data_ferro_spiral_skyrmions example_context [(0, 0, 1), (0, 0, - 1)] = Inr (rgb 113 255 133)"
  by (simp add: data_ferro_spiral_skyrmions_def example_conical_1)
     (simp add: example_context_def predicate_eval)

lemma example_path_0:
  "get_file_path (example_paths\<lparr> structure_pm := ''structure'' \<rparr>) '''' 0 0 = ''x//out_DM0.000_K0.000''"
  by (simp add: get_file_path_def example_paths_def var_to_str_def py_format_def
      fixed_precision_3f format_fixed_0 Let_def)

lemma example_path_1:
  "get_file_path (example_paths\<lparr> structure_pm := ''structure'' \<rparr>) '''' 0 1 = ''x//out_DM0.000_K1.000''"
  by (simp add: get_file_path_def example_paths_def var_to_str_def py_format_def
      fixed_precision_3f format_fixed_0 format_fixed_1 Let_def)

lemma example_bound: 
  "set_values criteria_init 2 [(1, 1, 1), (0, 0, 0)] [1, - 1] [(0, 0, 0), (1, 0, 0)] = example_context"
  by (simp add: set_values_def criteria_init_def example_context_def)

lemma len_criteria_init: "len criteria_init = 0"
  by (simp add: criteria_init_def)

lemma example_cell_0:
  "set_data_cell example_files data_ferro_spiral_skyrmions (0, 0) (0, 0) example_manager
   = Inr (example_manager\<lparr> data := [[rgb 255 231 113, (0, 0, 0)]], criteria := example_context \<rparr>)"
  by (simp add: set_data_cell_def example_manager_def data_manager_init_def example_path_0
      example_load_0 example_label example_bound example_color_0 store_color_def
      np_get_def np_set_def bind_err_def len_criteria_init replicate_2)

lemma example_sweep:
  "set_data example_files data_ferro_spiral_skyrmions example_manager
   = Inr (example_manager\<lparr> data := [[rgb 255 231 113, rgb 113 255 133]],
                           criteria := example_context \<rparr>)"
proof -
  have "set_data_cell example_files data_ferro_spiral_skyrmions (0, 0) (1, 1)
          (example_manager\<lparr> data := [[rgb 255 231 113, (0, 0, 0)]], criteria := example_context \<rparr>)
        = Inr (example_manager\<lparr> data := [[rgb 255 231 113, rgb 113 255 133]],
                           criteria := example_context \<rparr>)"
    by (simp add: set_data_cell_def example_manager_def data_manager_init_def example_path_1
        example_load_1 example_color_1 store_color_def np_get_def np_set_def bind_err_def)
       (simp add: example_context_def)
  then show ?thesis
    unfolding set_data_cells example_grid
    by (simp add: example_cell_0 bind_err_def)
qed

lemma len_example_manager: "len (criteria example_manager) = 0"
  by (simp add: example_manager_def data_manager_init_def criteria_init_def)

lemma example_structure_path: "structure_pm (path_manager example_manager) = ''structure''"
  by (simp add: example_manager_def data_manager_init_def)

theorem context_bound_once_witness:
  "len (criteria example_manager) = 0 \<and>
   set_data example_files data_ferro_spiral_skyrmions example_manager =
     Inr (example_manager\<lparr> data := [[rgb 255 231 113, rgb 113 255 133]],
                           criteria := example_context \<rparr>) \<and>
   classify_cells example_files data_ferro_spiral_skyrmions example_context
       (grid_cells example_manager) example_manager =
     Inr (example_manager\<lparr> data := [[rgb 255 231 113, rgb 113 255 133]] \<rparr>)"
proof -
  from context_bound_once [OF len_example_manager example_sweep example_grid]
  obtain lat lat' where
    load: "load_files example_files lattice_init (structure_pm (path_manager example_manager))
             (spin_file_of example_manager ((0, 0), (0, 0))) = Inr lat"
    and lab: "set_sublattice lat = Inr lat'"
    and cls: "classify_cells example_files data_ferro_spiral_skyrmions (bound_context lat')
                (grid_cells example_manager) example_manager =
              Inr (example_manager\<lparr> data := [[rgb 255 231 113, rgb 113 255 133]],
                     criteria := example_context, criteria := criteria example_manager \<rparr>)"
    by blast
  from load have "lat = \<lparr> spins_l = [(0, 0, 1), (0, 0, 1)], position = [(0, 0, 0), (1, 0, 0)],
            vecinos_l = [(1, 1, 1), (0, 0, 0)], n_atoms = 2, dimensions = (1, 0, 0),
            size_l = 1, sublattice_l = [0, 0] \<rparr>"
    by (simp add: example_structure_path example_file_0 example_load_0)
  with lab have "lat' = \<lparr> spins_l = [(0, 0, 1), (0, 0, 1)], position = [(0, 0, 0), (1, 0, 0)],
            vecinos_l = [(1, 1, 1), (0, 0, 0)], n_atoms = 2, dimensions = (1, 0, 0),
            size_l = 1, sublattice_l = [1, - 1] \<rparr>"
    by (simp add: example_label)
  then have "bound_context lat' = example_context"
    by (simp add: bound_context_def example_context_def)
  with cls have "classify_cells example_files data_ferro_spiral_skyrmions example_context
       (grid_cells example_manager) example_manager =
     Inr (example_manager\<lparr> data := [[rgb 255 231 113, rgb 113 255 133]] \<rparr>)"
    by (simp add: example_manager_def data_manager_init_def)
  with len_example_manager example_sweep show ?thesis by simp
qed

subsection \<open>Missing files\<close>

lemma load_files_missing:
  assumes "structure_files fs structure_file = None \<or> spin_files fs spin_file = None"
  shows "load_files fs l structure_file spin_file = Inr l"
  using assms by (auto simp: load_files_def split: option.splits)

lemma set_sublattice_empty: "set_sublattice lattice_init = Inl IndexError"
  by (simp add: set_sublattice_def lattice_init_def np_set_def bind_err_def)

lemma range_py_pos: "1 \<le> n \<Longrightarrow> range_py n = 0 # map int [1..<nat n]"
  by (simp add: range_py_def upt_conv_Cons)

lemma spiral_table_no_spins:
  assumes "1 \<le> len c"
  shows "data_ferro_spiral_skyrmions c [] = Inl IndexError"
  using assms
  by (simp add: data_ferro_spiral_skyrmions_def is_ferro_z_aligned_def spins_z_def
      spins_component_def range_py_pos np_get_def bind_err_def)

lemma walls_table_no_spins:
  assumes "1 \<le> len c"
  shows "data_ferro_and_align_with_domain_walls c [] = Inl IndexError"
  using assms
  by (simp add: data_ferro_and_align_with_domain_walls_def is_local_ferro_antiferro_def
      neighbour_mean_dot_def range_py_pos np_get_def bind_err_def)

lemma cell_missing:
  assumes inv: "len (criteria dm) = 0 \<or> 1 \<le> len (criteria dm)"
    and tab: "\<And>c. 1 \<le> len c \<Longrightarrow> f c [] = Inl IndexError"
    and missing: "structure_files fs (structure_pm (path_manager dm)) = None \<or>
                  spin_files fs (spin_file_of dm (jv, kv)) = None"
  shows "set_data_cell fs f jv kv dm = Inl IndexError"
proof -
  obtain j var1 where jv: "jv = (j, var1)" by (cases jv)
  obtain k var2 where kv: "kv = (k, var2)" by (cases kv)
  have "load_files fs lattice_init (structure_pm (path_manager dm))
          (get_file_path (path_manager dm) '''' var1 var2 @ ''_spin'') = Inr lattice_init"
    using missing by (intro load_files_missing) (simp add: spin_file_of_def jv kv)
  moreover have "spins_l lattice_init = []" by (simp add: lattice_init_def)
  ultimately show ?thesis
    using inv tab [of "criteria dm"]
    by (auto simp: set_data_cell_def jv kv Let_def bind_err_def set_sublattice_empty)
qed

lemma run_cells_missing:
  assumes inv: "len (criteria dm) = 0 \<or> 1 \<le> len (criteria dm)"
    and tab: "\<And>c. 1 \<le> len c \<Longrightarrow> f c [] = Inl IndexError"
    and cell: "cell \<in> set cells"
    and missing: "structure_files fs (structure_pm (path_manager dm)) = None \<or>
                  spin_files fs (spin_file_of dm cell) = None"
  shows "isl (run_cells fs f cells dm)"
  using inv cell missing
proof (induction cells arbitrary: dm)
  case Nil
  then show ?case by simp
next
  case (Cons c cells)
  obtain jv kv where c: "c = (jv, kv)" by (cases c)
  show ?case
  proof (cases "set_data_cell fs f jv kv dm")
    case (Inl e)
    then show ?thesis by (simp add: c bind_err_def)
  next
    case (Inr dm1)
    have "cell \<noteq> c"
    proof
      assume "cell = c"
      then have "structure_files fs (structure_pm (path_manager dm)) = None \<or>
                  spin_files fs (spin_file_of dm (jv, kv)) = None"
        using Cons.prems(3) c by simp
      with Cons.prems(1) tab have "set_data_cell fs f jv kv dm = Inl IndexError"
        by (rule cell_missing)
      with Inr show False by simp
    qed
    then have in_rest: "cell \<in> set cells" using Cons.prems(2) by simp
    have inv1: "len (criteria dm1) = 0 \<or> 1 \<le> len (criteria dm1)"
      using cell_binds [OF Inr] Cons.prems(1) by auto
    have pm: "path_manager dm1 = path_manager dm" using cell_keeps_grid [OF Inr] by simp
    then have "spin_file_of dm1 cell = spin_file_of dm cell" by (simp add: spin_file_of_def)
    with pm Cons.prems(3) have
      "structure_files fs (structure_pm (path_manager dm1)) = None \<or>
       spin_files fs (spin_file_of dm1 cell) = None" by simp
    from Cons.IH [OF inv1 in_rest this] show ?thesis using Inr by (simp add: c bind_err_def)
  qed
qed

text \<open>Whatever the grid, a sweep started with an unbound context raises as soon as one
  of its cells has no structure file or no spin file (unless an earlier cell raised).\<close>

lemma missing_file_aborts_sweep:
  assumes "len (criteria dm) = 0" and "cell \<in> set (grid_cells dm)"
    and "structure_files fs (structure_pm (path_manager dm)) = None \<or>
         spin_files fs (spin_file_of dm cell) = None"
  shows "isl (set_data fs data_ferro_spiral_skyrmions dm)"
    and "isl (set_data fs data_ferro_and_align_with_domain_walls dm)"
  using assms run_cells_missing [of dm data_ferro_spiral_skyrmions cell "grid_cells dm" fs]
    run_cells_missing [of dm data_ferro_and_align_with_domain_walls cell "grid_cells dm" fs]
  by (simp_all add: set_data_cells spiral_table_no_spins walls_table_no_spins)

text \<open>
  Claim C3. \<open>load_files\<close> reports a missing file and returns, but \<open>set_data\<close> goes on
  with the empty lattice. On the grid \<open>[0] \<times> [0, 1]\<close>: without any spin file the first
  cell calls \<open>set_sublattice\<close> on the empty lattice, whose seeding \<open>sublattice[0] = 1\<close>
  raises IndexError; with only the second spin file missing, the second cell hands the
  empty spin array to the rule table, whose first read \<open>spins[0]\<close> raises IndexError. The
  sweep does not complete in either case.
\<close>

theorem sweep_missing_file_raises:
  "set_data example_files_none data_ferro_spiral_skyrmions example_manager = Inl IndexError \<and>
   set_data example_files_one_missing data_ferro_spiral_skyrmions example_manager = Inl IndexError"
proof -
  have none: "spin_files example_files_none (spin_file_of example_manager ((0, 0), (0, 0))) = None"
    by (simp add: example_files_none_def)
  have first: "set_data_cell example_files_none data_ferro_spiral_skyrmions (0, 0) (0, 0) example_manager
        = Inl IndexError"
    by (rule cell_missing) (simp_all add: none len_example_manager spiral_table_no_spins)
  have a: "set_data example_files_none data_ferro_spiral_skyrmions example_manager = Inl IndexError"
    unfolding set_data_cells example_grid by (simp add: first bind_err_def)
  have load0: "load_files example_files_one_missing lattice_init ''structure'' ''x//out_DM0.000_K0.000_spin''
     = load_files example_files lattice_init ''structure'' ''x//out_DM0.000_K0.000_spin''"
    by (simp add: load_files_def example_files_one_missing_def example_files_def)
  have cell0: "set_data_cell example_files_one_missing data_ferro_spiral_skyrmions (0, 0) (0, 0) example_manager
   = Inr (example_manager\<lparr> data := [[rgb 255 231 113, (0, 0, 0)]], criteria := example_context \<rparr>)"
    by (simp add: set_data_cell_def example_manager_def data_manager_init_def example_path_0
      load0 example_load_0 example_label example_bound example_color_0 store_color_def
      np_get_def np_set_def bind_err_def len_criteria_init replicate_2)
  have miss: "spin_files example_files_one_missing
        (spin_file_of (example_manager\<lparr> data := [[rgb 255 231 113, (0, 0, 0)]], criteria := example_context \<rparr>)
           ((0, 0), (1, 1))) = None"
    using example_file_1
    by (simp add: spin_file_of_def example_manager_def data_manager_init_def example_files_one_missing_def)
  have cell1: "set_data_cell example_files_one_missing data_ferro_spiral_skyrmions (0, 0) (1, 1)
        (example_manager\<lparr> data := [[rgb 255 231 113, (0, 0, 0)]], criteria := example_context \<rparr>)
      = Inl IndexError"
  proof (rule cell_missing)
    show "len (criteria (example_manager\<lparr> data := [[rgb 255 231 113, (0, 0, 0)]], criteria := example_context \<rparr>)) = 0 \<or>
          1 \<le> len (criteria (example_manager\<lparr> data := [[rgb 255 231 113, (0, 0, 0)]], criteria := example_context \<rparr>))"
      by (simp add: example_context_def)
    show "\<And>c. 1 \<le> len c \<Longrightarrow> data_ferro_spiral_skyrmions c [] = Inl IndexError"
      by (rule spiral_table_no_spins)
    show "structure_files example_files_one_missing
            (structure_pm (path_manager (example_manager\<lparr> data := [[rgb 255 231 113, (0, 0, 0)]], criteria := example_context \<rparr>))) = None \<or>
          spin_files example_files_one_missing
            (spin_file_of (example_manager\<lparr> data := [[rgb 255 231 113, (0, 0, 0)]], criteria := example_context \<rparr>)
               ((0, 0), (1, 1))) = None"
      using miss by blast
  qed
  have b: "set_data example_files_one_missing data_ferro_spiral_skyrmions example_manager = Inl IndexError"
    unfolding set_data_cells example_grid by (simp add: cell0 cell1 bind_err_def)
  from a b show ?thesis by simp
qed

end
